theory Spec2Isabelle
  imports Main "HOL-Library.AList"
begin

section \<open>Data model of the action execution engine\<close>

text \<open>
  The engine of \<^verbatim>\<open>openslides_backend/action/action.py\<close> is embedded function by
  function. Python dictionaries are association lists in insertion order
  (\<open>map_of\<close> reads a key, \<open>AList.update\<close> stores one: in place when the key is
  there, at the end otherwise, as \<^verbatim>\<open>d[k] = v\<close> does). Exceptions are values of
  \<open>error\<close>; every function that can raise returns \<open>error + 'a\<close>, and every method
  that touches \<^verbatim>\<open>self\<close> or the datastore returns the state next to its result,
  also when it raises.
\<close>

subsection \<open>Values\<close>

text \<open>The values of type \<^verbatim>\<open>Any\<close> that a JSON payload or a stored model holds.\<close>

datatype pyval =
    PNone
  | PBool bool
  | PInt int
  | PStr string
  | PList "pyval list"
  | PDict "(string \<times> pyval) list"

text \<open>Python's truth value of an object, as \<^verbatim>\<open>if x\<close> and \<^verbatim>\<open>not x\<close> test it.\<close>

fun truthy :: "pyval \<Rightarrow> bool" where
  "truthy PNone = False"
| "truthy (PBool b) = b"
| "truthy (PInt n) = (n \<noteq> 0)"
| "truthy (PStr s) = (s \<noteq> [])"
| "truthy (PList xs) = (xs \<noteq> [])"
| "truthy (PDict d) = (d \<noteq> [])"

type_synonym instance_dict = "(string \<times> pyval) list"

type_synonym payload = "instance_dict list"

text \<open>\<^verbatim>\<open>d.get(k)\<close> with the default \<^verbatim>\<open>None\<close>, as a value.\<close>

definition dict_get_value :: "instance_dict \<Rightarrow> string \<Rightarrow> pyval" where
  "dict_get_value d k = (case map_of d k of None \<Rightarrow> PNone | Some v \<Rightarrow> v)"

text \<open>\<^verbatim>\<open>d.update(other)\<close>: the items of \<^verbatim>\<open>other\<close> are stored from left to right.\<close>

definition dict_update :: "('k \<times> 'v) list \<Rightarrow> ('k \<times> 'v) list \<Rightarrow> ('k \<times> 'v) list" where
  "dict_update d other = fold (\<lambda>(k, v). AList.update k v) other d"

subsection \<open>Errors\<close>

text \<open>
  \<open>ActionException\<close>, \<open>PermissionDenied\<close> and \<open>RequiredFieldsException\<close> are the
  exceptions of \<^verbatim>\<open>shared/exceptions.py\<close> that the engine raises for the caller;
  \<open>ValueError\<close>, \<open>KeyError\<close>, \<open>TypeError\<close> and \<open>NotImplementedError\<close> are Python's
  own. \<open>DatastoreError\<close> stands for whatever a collaborator raises.
\<close>

datatype error =
    ActionException string
  | PermissionDenied string
  | RequiredFieldsException string "string list"
  | ValueError string
  | KeyError string
  | TypeError string
  | NotImplementedError
  | DatastoreError string

subsection \<open>Entity references\<close>

datatype full_qualified_id =
  FullQualifiedId (fqid_collection: string) (fqid_id: int)

datatype full_qualified_field =
  FullQualifiedField (fqfield_collection: string) (fqfield_id: int) (fqfield_field: string)

subsection \<open>Events and write requests\<close>

datatype event_type = Create | Update | Delete

text \<open>
  \<^verbatim>\<open>ListFields\<close> is a dictionary with the optional keys \<^verbatim>\<open>add\<close> and \<^verbatim>\<open>remove\<close>,
  each a dictionary from a field name to a list of ids.
\<close>

type_synonym list_fields = "(string \<times> (string \<times> pyval list) list) list"

text \<open>
  An \<^verbatim>\<open>Event\<close> is a dictionary with the keys \<^verbatim>\<open>type\<close> and \<^verbatim>\<open>fqid\<close> and the optional
  keys \<^verbatim>\<open>fields\<close> and \<^verbatim>\<open>list_fields\<close>; an optional key that is absent is \<open>None\<close>.
\<close>

datatype event =
  Event (etype: event_type) (fqid: full_qualified_id)
        (fields: "instance_dict option") (list_fields: "list_fields option")

type_synonym information_dict = "(full_qualified_id \<times> string list) list"

type_synonym locked_fields_dict = "(string \<times> int) list"

record write_request =
  events :: "event list"
  information :: information_dict
  user_id :: int
  locked_fields :: locked_fields_dict

section \<open>Merging write requests\<close>

text \<open>
  The body of the inner loop of \<^verbatim>\<open>merge_write_requests\<close>:
  \<^verbatim>\<open>
  if information.get(fqid) is None:
      information[fqid] = info_text
  else:
      information[fqid].extend(info_text)
  \<close>
  The code stores the list of the first write request itself and extends that list
  in place, so the annotation lists of the write requests that were given grow as
  well. The dictionary computed here is the one of the merged write request, which
  is what \<^verbatim>\<open>merge_write_requests\<close> returns; the write requests given are not
  returned, and nothing below states what they hold after a merge.
\<close>

definition merge_information ::
  "full_qualified_id \<times> string list \<Rightarrow> information_dict \<Rightarrow> information_dict" where
  "merge_information item info =
     (case map_of info (fst item) of
        None \<Rightarrow> AList.update (fst item) (snd item) info
      | Some texts \<Rightarrow> AList.update (fst item) (texts @ snd item) info)"

text \<open>
  The loop \<^verbatim>\<open>for element in write_requests\<close> over the three local variables
  \<^verbatim>\<open>events\<close>, \<^verbatim>\<open>information\<close> and \<^verbatim>\<open>user_id\<close> (which starts as \<^verbatim>\<open>None\<close>).
\<close>

fun merge_loop ::
  "write_request list \<Rightarrow> event list \<Rightarrow> information_dict \<Rightarrow> int option \<Rightarrow>
     error + (event list \<times> information_dict \<times> int option)" where
  "merge_loop [] evs info uid = Inr (evs, info, uid)"
| "merge_loop (element # rest) evs info uid =
     (let evs' = evs @ events element;
          info' = fold merge_information (information element) info
      in case uid of
           None \<Rightarrow> merge_loop rest evs' info' (Some (user_id element))
         | Some u \<Rightarrow>
             if u \<noteq> user_id element
             then Inl (ValueError
                    ''You can not merge two write request elements of different users.'')
             else merge_loop rest evs' info' uid)"

definition merge_write_requests :: "write_request list \<Rightarrow> error + write_request option" where
  "merge_write_requests wrs =
     (case merge_loop wrs [] [] None of
        Inl e \<Rightarrow> Inl e
      | Inr (evs, info, uid) \<Rightarrow>
          if evs \<noteq> [] then
            (case uid of
               None \<Rightarrow> Inl (ValueError ''At least one of the given user ids must not be None.'')
             | Some u \<Rightarrow>
                 Inr (Some \<lparr>events = evs, information = info, user_id = u,
                            locked_fields = []\<rparr>))
          else Inr None)"

section \<open>Actions\<close>

subsection \<open>State of an action and of the datastore collaborator\<close>

type_synonym model_map = "(full_qualified_id \<times> instance_dict) list"

text \<open>
  The datastore collaborator. \<^verbatim>\<open>locked_fields\<close> is the attribute declared in
  \<^verbatim>\<open>services/datastore/interface.py\<close> (keys are stringified references, values
  positions) and \<^verbatim>\<open>additional_relation_models\<close> the attribute that
  \<^verbatim>\<open>execute_other_action\<close> reads. \<open>ds_models\<close> and \<open>ds_position\<close> are the stored
  models and the position that a read of the collaborator answers from.
\<close>

record datastore =
  ds_locked_fields :: locked_fields_dict
  ds_additional_relation_models :: model_map
  ds_models :: model_map
  ds_position :: int

text \<open>
  The attributes of an \<^verbatim>\<open>Action\<close> object (\<^verbatim>\<open>self\<close>). The datastore is shared by
  reference between an action and the actions it executes; here the nested action
  receives the caller's datastore and hands it back (see \<open>execute_other_action\<close>).
  \<^verbatim>\<open>self.user_id\<close> is \<open>self_user_id\<close>. It and \<^verbatim>\<open>self.index\<close> exist only once
  \<^verbatim>\<open>perform\<close> has assigned them; every read of them below happens after that
  assignment, so the values that \<open>Action_init\<close> gives them are never seen.
\<close>

record action =
  self_user_id :: int
  index :: int
  write_requests :: "write_request list"
  additional_relation_models :: model_map
  modified_relation_fields :: "(full_qualified_field \<times> pyval) list"
  datastore :: datastore

text \<open>\<^verbatim>\<open>Action.__init__\<close>, for the datastore and the additional relation models given.\<close>

definition Action_init :: "datastore \<Rightarrow> model_map \<Rightarrow> action" where
  "Action_init ds arm =
     \<lparr>self_user_id = 0, index = 0, write_requests = [], additional_relation_models = arm,
      modified_relation_fields = [], datastore = ds\<rparr>"

subsection \<open>Collaborators\<close>

text \<open>
  A Relation Update Element of \<^verbatim>\<open>relations/typing.py\<close>: a \<^verbatim>\<open>FieldUpdateElement\<close> with
  \<^verbatim>\<open>type\<close> \<^verbatim>\<open>"add"\<close> or \<^verbatim>\<open>"remove"\<close> and a \<^verbatim>\<open>value\<close>, or a \<^verbatim>\<open>ListUpdateElement\<close>
  (\<^verbatim>\<open>type\<close> \<^verbatim>\<open>"list_update"\<close>) with the lists \<^verbatim>\<open>add\<close> and \<^verbatim>\<open>remove\<close>.
\<close>

datatype field_update_type = Add | Remove

datatype relation_update_element =
    FieldUpdateElement field_update_type pyval
  | ListUpdateElement "pyval list" "pyval list"

text \<open>
  The collaborators an action is constructed with, as parameters: the permission
  service's \<^verbatim>\<open>is_allowed(name, user_id, payload)\<close>, the datastore's
  \<^verbatim>\<open>get(fqid, mapped_fields, lock_result=...)\<close> and the relation manager's
  \<^verbatim>\<open>get_relation_updates(model, instance, action_name, additional_relation_models)\<close>.
  The last two read (and may lock in) the datastore, and may raise.
\<close>

record services =
  is_allowed :: "string \<Rightarrow> int \<Rightarrow> payload \<Rightarrow> bool"
  datastore_get ::
    "full_qualified_id \<Rightarrow> string list \<Rightarrow> bool \<Rightarrow> datastore \<Rightarrow>
       (error + instance_dict) \<times> datastore"
  get_relation_updates ::
    "string \<Rightarrow> instance_dict \<Rightarrow> string \<Rightarrow> model_map \<Rightarrow> datastore \<Rightarrow>
       (error + (full_qualified_field \<times> relation_update_element) list) \<times> datastore"

subsection \<open>The class of an action\<close>

text \<open>
  What a subclass of \<^verbatim>\<open>Action\<close> declares or overrides: \<^verbatim>\<open>name\<close>, \<^verbatim>\<open>model\<close> (by its
  collection), the compiled \<^verbatim>\<open>schema_validator\<close> (\<open>Some message\<close> when it raises
  \<^verbatim>\<open>JsonSchemaException\<close>) and the four methods that \<^verbatim>\<open>perform\<close> calls on
  \<^verbatim>\<open>self\<close>. \<open>get_updated_instances_native\<close> is
  \<^verbatim>\<open>hasattr(self.get_updated_instances, "_native")\<close>.

  \<^verbatim>\<open>get_updated_instances\<close> may be a generator, which \<^verbatim>\<open>perform\<close> consumes one
  instance at a time. It is given as the list of its segments: each segment runs
  the generator's code up to its next \<^verbatim>\<open>yield\<close> or \<^verbatim>\<open>yield from\<close> on the state of
  that moment and returns the instances it yields there. A method that returns a
  list is a single segment.
\<close>

record action_class =
  name :: string
  model :: string
  schema_validator :: "instance_dict \<Rightarrow> string option"
  get_updated_instances_native :: bool
  get_updated_instances ::
    "payload \<Rightarrow> (action \<Rightarrow> (error + instance_dict list) \<times> action) list"
  base_update_instance :: "instance_dict \<Rightarrow> action \<Rightarrow> (error + instance_dict) \<times> action"
  create_write_requests ::
    "instance_dict \<Rightarrow> action \<Rightarrow> (error + write_request list) \<times> action"
  create_action_result_element ::
    "instance_dict \<Rightarrow> action \<Rightarrow> (error + instance_dict option) \<times> action"

text \<open>
  The class \<^verbatim>\<open>Action\<close> itself: \<^verbatim>\<open>get_updated_instances\<close> is \<^verbatim>\<open>yield from payload\<close>
  and carries \<^verbatim>\<open>_native\<close>, \<^verbatim>\<open>base_update_instance\<close> returns \<^verbatim>\<open>update_instance(instance)\<close>,
  which returns the instance, \<^verbatim>\<open>create_write_requests\<close> raises
  \<^verbatim>\<open>NotImplementedError\<close> and \<^verbatim>\<open>create_action_result_element\<close> returns \<^verbatim>\<open>None\<close>.
\<close>

definition Action :: "string \<Rightarrow> string \<Rightarrow> (instance_dict \<Rightarrow> string option) \<Rightarrow> action_class" where
  "Action action_name collection validator =
     \<lparr>name = action_name, model = collection, schema_validator = validator,
      get_updated_instances_native = True,
      get_updated_instances = (\<lambda>pl. [\<lambda>self. (Inr pl, self)]),
      base_update_instance = (\<lambda>inst self. (Inr inst, self)),
      create_write_requests = (\<lambda>inst self. (Inl NotImplementedError, self)),
      create_action_result_element = (\<lambda>inst self. (Inr None, self))\<rparr>"

subsection \<open>Validation and permission\<close>

text \<open>
  \<^verbatim>\<open>validate_payload_element\<close>, a method on \<^verbatim>\<open>self\<close>. The compiled validator is called
  as \<^verbatim>\<open>type(self).schema_validator(instance)\<close>: it is given the instance and neither
  the action nor the datastore.
\<close>

definition validate_payload_element ::
  "action_class \<Rightarrow> instance_dict \<Rightarrow> action \<Rightarrow> (error + unit) \<times> action" where
  "validate_payload_element cls inst self =
     (case schema_validator cls inst of
        Some message \<Rightarrow> (Inl (ActionException message), self)
      | None \<Rightarrow> (Inr (), self))"

text \<open>
  The first loop of \<^verbatim>\<open>perform\<close>:
  \<^verbatim>\<open>
  for element in payload:
      self.validate_payload_element(element)
      self.index += 1
  \<close>
\<close>

fun validate_payload :: "action_class \<Rightarrow> payload \<Rightarrow> action \<Rightarrow> (error + unit) \<times> action" where
  "validate_payload cls [] self = (Inr (), self)"
| "validate_payload cls (element # rest) self =
     (case validate_payload_element cls element self of
        (Inl e, self) \<Rightarrow> (Inl e, self)
      | (Inr _, self) \<Rightarrow> validate_payload cls rest (self\<lparr>index := index self + 1\<rparr>))"

definition check_permissions ::
  "services \<Rightarrow> action_class \<Rightarrow> payload \<Rightarrow> action \<Rightarrow> (error + unit) \<times> action" where
  "check_permissions svc cls pl self =
     (if \<not> is_allowed svc (name cls) (self_user_id self) pl
      then (Inl (PermissionDenied
                  (''You are not allowed to perform action '' @ name cls @ ''.'')), self)
      else (Inr (), self))"

subsection \<open>Building write requests\<close>

text \<open>
  \<^verbatim>\<open>build_write_request\<close>: \<^verbatim>\<open>if fields:\<close> and \<^verbatim>\<open>if list_fields:\<close> set the optional keys
  of the event only for a dictionary that is neither \<^verbatim>\<open>None\<close> nor empty.
\<close>

definition build_write_request ::
  "action \<Rightarrow> event_type \<Rightarrow> full_qualified_id \<Rightarrow> string \<Rightarrow> instance_dict option \<Rightarrow>
     list_fields option \<Rightarrow> write_request" where
  "build_write_request self t fq info_text flds lflds =
     \<lparr>events =
        [Event t fq
           (case flds of None \<Rightarrow> None | Some d \<Rightarrow> if d \<noteq> [] then Some d else None)
           (case lflds of None \<Rightarrow> None | Some d \<Rightarrow> if d \<noteq> [] then Some d else None)],
      information = [(fq, [info_text])],
      user_id = self_user_id self,
      locked_fields = []\<rparr>"

text \<open>
  The body of the loop \<^verbatim>\<open>for fqfield, data in relation_updates.items()\<close> of
  \<^verbatim>\<open>handle_relation_updates\<close>, which yields one write request.
\<close>

definition relation_update_write_request ::
  "action \<Rightarrow> full_qualified_field \<times> relation_update_element \<Rightarrow> write_request" where
  "relation_update_write_request self item =
     (let fqfield = fst item;
          target = FullQualifiedId (fqfield_collection fqfield) (fqfield_id fqfield)
      in case snd item of
           FieldUpdateElement t v \<Rightarrow>
             build_write_request self Update target
               (if t = Add then ''Object attached to '' @ fqfield_collection fqfield
                else ''Object attachment to '' @ fqfield_collection fqfield @ '' reset'')
               (Some [(fqfield_field fqfield, v)]) None
         | ListUpdateElement add_ids remove_ids \<Rightarrow>
             (let list_fields_tmp = [];
                  list_fields_tmp =
                    (if add_ids \<noteq> []
                     then AList.update ''add'' [(fqfield_field fqfield, add_ids)] list_fields_tmp
                     else list_fields_tmp);
                  list_fields_tmp =
                    (if remove_ids \<noteq> []
                     then AList.update ''remove'' [(fqfield_field fqfield, remove_ids)]
                            list_fields_tmp
                     else list_fields_tmp)
              in build_write_request self Update target ''Object updated'' None
                   (Some list_fields_tmp)))"

definition handle_relation_updates ::
  "services \<Rightarrow> action_class \<Rightarrow> instance_dict \<Rightarrow> action \<Rightarrow>
     (error + write_request list) \<times> action" where
  "handle_relation_updates svc cls inst self =
     (case get_relation_updates svc (model cls) inst (name cls)
             (additional_relation_models self) (datastore self) of
        (Inl e, ds') \<Rightarrow> (Inl e, self\<lparr>datastore := ds'\<rparr>)
      | (Inr relation_updates, ds') \<Rightarrow>
          (Inr (map (relation_update_write_request (self\<lparr>datastore := ds'\<rparr>)) relation_updates),
           self\<lparr>datastore := ds'\<rparr>))"

subsection \<open>Merging at the end of perform\<close>

text \<open>
  \<^verbatim>\<open>events_by_type\<close> is a \<^verbatim>\<open>defaultdict(list)\<close>: a function from the event type to the
  list collected so far, empty at the start.
\<close>

definition group_events_by_type :: "event list \<Rightarrow> event_type \<Rightarrow> event list" where
  "group_events_by_type evs =
     fold (\<lambda>ev by_type. by_type(etype ev := by_type (etype ev) @ [ev])) evs (\<lambda>_. [])"

definition process_write_requests :: "action \<Rightarrow> (error + write_request option) \<times> action" where
  "process_write_requests self =
     (case merge_write_requests (write_requests self) of
        Inl e \<Rightarrow> (Inl e, self)
      | Inr None \<Rightarrow> (Inr None, self)
      | Inr (Some wr) \<Rightarrow>
          (let events_by_type = group_events_by_type (events wr);
               wr = wr\<lparr>events := []\<rparr>;
               wr = wr\<lparr>events :=
                      fold (\<lambda>t evs. evs @ events_by_type t) [Create, Update, Delete] (events wr)\<rparr>;
               wr = wr\<lparr>locked_fields := ds_locked_fields (datastore self)\<rparr>;
               self = self\<lparr>datastore := (datastore self)\<lparr>ds_locked_fields := []\<rparr>\<rparr>
           in (Inr (Some wr), self)))"

subsection \<open>perform\<close>

text \<open>
  The body of the loop \<^verbatim>\<open>for instance in instances\<close> of \<^verbatim>\<open>perform\<close>, for the
  instances of one segment; \<open>results\<close> is the list \<^verbatim>\<open>results\<close> so far.
\<close>

fun process_instances ::
  "services \<Rightarrow> action_class \<Rightarrow> instance_dict list \<Rightarrow> instance_dict option list \<Rightarrow> action \<Rightarrow>
     (error + instance_dict option list) \<times> action" where
  "process_instances svc cls [] results self = (Inr results, self)"
| "process_instances svc cls (inst # rest) results self =
     (let self = (if get_updated_instances_native cls
                  then self\<lparr>index := index self + 1\<rparr> else self)
      in case base_update_instance cls inst self of
           (Inl e, self) \<Rightarrow> (Inl e, self)
         | (Inr inst, self) \<Rightarrow>
      (case handle_relation_updates svc cls inst self of
           (Inl e, self) \<Rightarrow> (Inl e, self)
         | (Inr relation_updates, self) \<Rightarrow>
      (let self = self\<lparr>write_requests := write_requests self @ relation_updates\<rparr>
       in case create_write_requests cls inst self of
           (Inl e, self) \<Rightarrow> (Inl e, self)
         | (Inr write_request, self) \<Rightarrow>
      (let self = self\<lparr>write_requests := write_requests self @ write_request\<rparr>
       in case create_action_result_element cls inst self of
           (Inl e, self) \<Rightarrow> (Inl e, self)
         | (Inr result, self) \<Rightarrow>
             process_instances svc cls rest (results @ [result]) self))))"

text \<open>The same loop over the whole generator: segment after segment.\<close>

fun process_segments ::
  "services \<Rightarrow> action_class \<Rightarrow> (action \<Rightarrow> (error + instance_dict list) \<times> action) list \<Rightarrow>
     instance_dict option list \<Rightarrow> action \<Rightarrow> (error + instance_dict option list) \<times> action" where
  "process_segments svc cls [] results self = (Inr results, self)"
| "process_segments svc cls (segment # rest) results self =
     (case segment self of
        (Inl e, self) \<Rightarrow> (Inl e, self)
      | (Inr instances, self) \<Rightarrow>
          (case process_instances svc cls instances results self of
             (Inl e, self) \<Rightarrow> (Inl e, self)
           | (Inr results, self) \<Rightarrow> process_segments svc cls rest results self))"

text \<open>Everything \<^verbatim>\<open>perform\<close> does before it calls \<^verbatim>\<open>process_write_requests\<close>.\<close>

definition perform_instances ::
  "services \<Rightarrow> action_class \<Rightarrow> payload \<Rightarrow> int \<Rightarrow> bool \<Rightarrow> action \<Rightarrow>
     (error + instance_dict option list) \<times> action" where
  "perform_instances svc cls pl uid internal self =
     (let self = self\<lparr>self_user_id := uid\<rparr>;
          self = self\<lparr>index := 0\<rparr>
      in case validate_payload cls pl self of
           (Inl e, self) \<Rightarrow> (Inl e, self)
         | (Inr _, self) \<Rightarrow>
      (let self = self\<lparr>index := - 1\<rparr>
       in case (if \<not> internal then check_permissions svc cls pl self else (Inr (), self)) of
           (Inl e, self) \<Rightarrow> (Inl e, self)
         | (Inr _, self) \<Rightarrow>
             process_segments svc cls (get_updated_instances cls pl) [] self))"

definition perform ::
  "services \<Rightarrow> action_class \<Rightarrow> payload \<Rightarrow> int \<Rightarrow> bool \<Rightarrow> action \<Rightarrow>
     (error + write_request option \<times> instance_dict option list) \<times> action" where
  "perform svc cls pl uid internal self =
     (case perform_instances svc cls pl uid internal self of
        (Inl e, self) \<Rightarrow> (Inl e, self)
      | (Inr results, self) \<Rightarrow>
          (case process_write_requests self of
             (Inl e, self) \<Rightarrow> (Inl e, self)
           | (Inr final_write_request, self) \<Rightarrow> (Inr (final_write_request, results), self)))"

subsection \<open>Reading models and executing other actions\<close>

text \<open>
  \<^verbatim>\<open>fetch_model\<close>. The dictionary comprehension
  \<^verbatim>\<open>{field: additional_model.get(field) for field in mapped_fields}\<close> stores one key
  after the other.
\<close>

definition fetch_model ::
  "services \<Rightarrow> full_qualified_id \<Rightarrow> string list \<Rightarrow> action \<Rightarrow>
     (error + instance_dict) \<times> action" where
  "fetch_model svc fq mapped_fields self =
     (case map_of (additional_relation_models self) fq of
        Some additional_model \<Rightarrow>
          if mapped_fields \<noteq> []
          then (Inr (fold (\<lambda>field d. AList.update field (dict_get_value additional_model field) d)
                       mapped_fields []), self)
          else (Inr additional_model, self)
      | None \<Rightarrow>
          (case datastore_get svc fq mapped_fields True (datastore self) of
             (r, ds') \<Rightarrow> (r, self\<lparr>datastore := ds'\<rparr>)))"

text \<open>
  \<^verbatim>\<open>execute_other_action\<close>. The new action is constructed on the caller's datastore
  with the three dictionaries merged by \<^verbatim>\<open>{**a, **b, **c}\<close>; whatever its
  \<^verbatim>\<open>perform\<close> did to the datastore is the caller's datastore afterwards, also when it
  raised.
\<close>

definition execute_other_action ::
  "services \<Rightarrow> action_class \<Rightarrow> payload \<Rightarrow> model_map \<Rightarrow> action \<Rightarrow>
     (error + write_request option \<times> instance_dict option list) \<times> action" where
  "execute_other_action svc ActionClass pl arm self =
     (let other = Action_init (datastore self)
                    (dict_update
                       (dict_update (ds_additional_relation_models (datastore self))
                          (additional_relation_models self))
                       arm)
      in case perform svc ActionClass pl (self_user_id self) True other of
           (Inl e, other) \<Rightarrow> (Inl e, self\<lparr>datastore := datastore other\<rparr>)
         | (Inr (write_request, action_results), other) \<Rightarrow>
             (let self = self\<lparr>datastore := datastore other\<rparr>;
                  self = (case write_request of
                            Some wr \<Rightarrow> self\<lparr>write_requests := write_requests self @ [wr]\<rparr>
                          | None \<Rightarrow> self)
              in (Inr (write_request, action_results), self)))"

subsection \<open>Required fields\<close>

text \<open>Decimal digits of a number, for \<^verbatim>\<open>str\<close> of an id.\<close>

fun str_nat :: "nat \<Rightarrow> string" where
  "str_nat n =
     (if n < 10 then [''0123456789'' ! n]
      else str_nat (n div 10) @ [''0123456789'' ! (n mod 10)])"

declare str_nat.simps [simp del]

definition str_int :: "int \<Rightarrow> string" where
  "str_int i = (if i < 0 then CHR ''-'' # str_nat (nat (- i)) else str_nat (nat i))"

text \<open>
  Modelled from the spec: \<^verbatim>\<open>FullQualifiedId.__str__\<close> and
  \<^verbatim>\<open>FullQualifiedField.__str__\<close> of \<^verbatim>\<open>shared/patterns.py\<close>, which is not among the
  sources. The spec writes a reference as \<^verbatim>\<open>collection/id\<close> and a field reference
  as an entity reference plus a field name.
\<close>

definition str_fqid :: "full_qualified_id \<Rightarrow> string" where
  "str_fqid fq = fqid_collection fq @ ''/'' @ str_int (fqid_id fq)"

definition str_fqfield :: "full_qualified_field \<Rightarrow> string" where
  "str_fqfield f =
     fqfield_collection f @ ''/'' @ str_int (fqfield_id f) @ ''/'' @ fqfield_field f"

text \<open>
  The first loop of \<^verbatim>\<open>validate_required_fields\<close>. An entry of \<^verbatim>\<open>fdict\<close> is the
  dictionary \<^verbatim>\<open>{"type": ..., "fields": ...}\<close>, a pair here; such a dictionary is never
  empty, so \<^verbatim>\<open>if fdict.get(event["fqid"])\<close> asks whether the key is there.
  The code puts the \<^verbatim>\<open>fields\<close> dictionary of the first event itself into the entry
  and updates it in place, so that event of the write request changes as well.
  \<^verbatim>\<open>validate_required_fields\<close> returns nothing but its exception, and that is what
  is computed here.
\<close>

type_synonym fdict = "(full_qualified_id \<times> event_type \<times> instance_dict) list"

definition event_fields :: "event \<Rightarrow> instance_dict" where
  "event_fields ev = (case event.fields ev of None \<Rightarrow> [] | Some d \<Rightarrow> d)"

definition fold_event :: "event \<Rightarrow> fdict \<Rightarrow> fdict" where
  "fold_event ev fd =
     (case map_of fd (fqid ev) of
        Some (t, flds) \<Rightarrow>
          if etype ev = Delete
          then AList.update (fqid ev) (Delete, flds) fd
          else AList.update (fqid ev) (t, dict_update flds (event_fields ev)) fd
      | None \<Rightarrow> AList.update (fqid ev) (etype ev, event_fields ev) fd)"

definition fold_events :: "event list \<Rightarrow> fdict" where
  "fold_events evs = fold fold_event evs []"

text \<open>
  The two list comprehensions: the required fields that a folded Create, or a folded
  Update, is missing. \<open>required\<close> is the list of \<^verbatim>\<open>own_field_name\<close> of
  \<^verbatim>\<open>get_required_fields()\<close>.
\<close>

definition missing_on_create :: "string list \<Rightarrow> instance_dict \<Rightarrow> string list" where
  "missing_on_create required inst =
     filter (\<lambda>f. case map_of inst f of None \<Rightarrow> True | Some v \<Rightarrow> \<not> truthy v) required"

definition missing_on_update :: "string list \<Rightarrow> instance_dict \<Rightarrow> string list" where
  "missing_on_update required inst =
     filter (\<lambda>f. case map_of inst f of None \<Rightarrow> False | Some v \<Rightarrow> \<not> truthy v) required"

text \<open>
  The second loop, \<^verbatim>\<open>for fqid, v in fdict.items()\<close>. \<open>registry c\<close> is
  \<^verbatim>\<open>model_registry[c]().get_required_fields()\<close>, which is looked up only for a folded
  Create or Update and may raise (\<^verbatim>\<open>KeyError\<close> for an unknown collection,
  \<^verbatim>\<open>NotImplementedError\<close> for a required list relation).
\<close>

fun check_required_fields :: "(string \<Rightarrow> error + string list) \<Rightarrow> fdict \<Rightarrow> error + unit" where
  "check_required_fields registry [] = Inr ()"
| "check_required_fields registry ((fq, ty, inst) # rest) =
     (case ty of
        Create \<Rightarrow>
          (case registry (fqid_collection fq) of
             Inl e \<Rightarrow> Inl e
           | Inr required \<Rightarrow>
               if missing_on_create required inst \<noteq> []
               then Inl (RequiredFieldsException (''Creation of '' @ str_fqid fq)
                           (missing_on_create required inst))
               else check_required_fields registry rest)
      | Update \<Rightarrow>
          (case registry (fqid_collection fq) of
             Inl e \<Rightarrow> Inl e
           | Inr required \<Rightarrow>
               if missing_on_update required inst \<noteq> []
               then Inl (RequiredFieldsException (''Update of '' @ str_fqid fq)
                           (missing_on_update required inst))
               else check_required_fields registry rest)
      | Delete \<Rightarrow> check_required_fields registry rest)"

definition validate_required_fields ::
  "(string \<Rightarrow> error + string list) \<Rightarrow> write_request \<Rightarrow> error + unit" where
  "validate_required_fields registry wr =
     check_required_fields registry (fold_events (events wr))"

section \<open>The action list\_of\_speakers.delete\_all\_speakers\<close>

text \<open>What \<^verbatim>\<open>for x in v\<close> and \<^verbatim>\<open>[... for x in v]\<close> iterate over, or \<^verbatim>\<open>TypeError\<close>.\<close>

fun py_iter :: "pyval \<Rightarrow> error + pyval list" where
  "py_iter (PList xs) = Inr xs"
| "py_iter (PStr s) = Inr (map (\<lambda>c. PStr [c]) s)"
| "py_iter (PDict d) = Inr (map (\<lambda>kv. PStr (fst kv)) d)"
| "py_iter PNone = Inl (TypeError '''NoneType' object is not iterable'')"
| "py_iter (PBool b) = Inl (TypeError '''bool' object is not iterable'')"
| "py_iter (PInt n) = Inl (TypeError '''int' object is not iterable'')"

text \<open>
  One round of the loop \<^verbatim>\<open>for instance in payload\<close> of
  \<^verbatim>\<open>ListOfSpeakersDeleteAllSpeakersAction.get_updated_instances\<close>, up to and with its
  \<^verbatim>\<open>yield from\<close>. \<^verbatim>\<open>instance["id"]\<close> raises \<^verbatim>\<open>KeyError\<close> without the key.
  The source has no check of its own for an id that is no integer:
  \<^verbatim>\<open>FullQualifiedId\<close> is declared for an \<^verbatim>\<open>int\<close>, and the schema of the action, which
  \<^verbatim>\<open>perform\<close> applies first, requires the id to be one. The last branch stands for
  the values that the schema excludes.
\<close>

definition delete_all_speakers_segment ::
  "services \<Rightarrow> instance_dict \<Rightarrow> action \<Rightarrow> (error + instance_dict list) \<times> action" where
  "delete_all_speakers_segment svc inst self =
     (case map_of inst ''id'' of
        None \<Rightarrow> (Inl (KeyError ''id''), self)
      | Some (PInt i) \<Rightarrow>
          (case fetch_model svc (FullQualifiedId ''list_of_speakers'' i) [''speaker_ids''] self of
             (Inl e, self) \<Rightarrow> (Inl e, self)
           | (Inr list_of_speakers, self) \<Rightarrow>
               if truthy (dict_get_value list_of_speakers ''speaker_ids'')
               then (case py_iter (dict_get_value list_of_speakers ''speaker_ids'') of
                       Inl e \<Rightarrow> (Inl e, self)
                     | Inr speaker_ids \<Rightarrow>
                         (Inr (map (\<lambda>speaker_id. [(''id'', speaker_id)]) speaker_ids), self))
               else (Inr [], self))
      | Some _ \<Rightarrow> (Inl (TypeError ''id must be an int''), self))"

text \<open>
  The class: \<^verbatim>\<open>DeleteAction\<close> (of \<^verbatim>\<open>generics/delete.py\<close>, not among the sources, hence
  the parameter \<open>DeleteAction\<close>) with its own name, model and schema (compiled to
  \<open>validator\<close>) and with \<^verbatim>\<open>get_updated_instances\<close> overridden by a generator, which
  does not carry \<^verbatim>\<open>_native\<close>.
\<close>

definition ListOfSpeakersDeleteAllSpeakersAction ::
  "services \<Rightarrow> action_class \<Rightarrow> (instance_dict \<Rightarrow> string option) \<Rightarrow> action_class" where
  "ListOfSpeakersDeleteAllSpeakersAction svc DeleteAction validator =
     DeleteAction
       \<lparr>name := ''list_of_speakers.delete_all_speakers'',
        model := ''speaker'',
        schema_validator := validator,
        get_updated_instances_native := False,
        get_updated_instances := (\<lambda>pl. map (delete_all_speakers_segment svc) pl)\<rparr>"

section \<open>A datastore and two actions to run the engine on\<close>

text \<open>
  Modelled from the spec: \<^verbatim>\<open>Datastore.get\<close>, of which the sources hold only the
  protocol. The spec has \<^verbatim>\<open>get(ref, fields, lockResult)\<close> return the instance and
  says that a read with the lock flag registers every field it reads in the
  locked-fields registry. So the read answers from the stored models, restricted to
  \<open>mapped_fields\<close> when there are some, and with \<open>lock_result\<close> it stores the position
  under the stringified field references (under the stringified id when no
  fields are named). A model that is not stored is an error of the collaborator.
\<close>

definition Datastore_get ::
  "full_qualified_id \<Rightarrow> string list \<Rightarrow> bool \<Rightarrow> datastore \<Rightarrow>
     (error + instance_dict) \<times> datastore" where
  "Datastore_get fq mapped_fields lock_result ds =
     (case map_of (ds_models ds) fq of
        None \<Rightarrow> (Inl (DatastoreError (''Model '' @ str_fqid fq @ '' does not exist.'')), ds)
      | Some m \<Rightarrow>
          (let result = (if mapped_fields \<noteq> []
                         then filter (\<lambda>kv. fst kv \<in> set mapped_fields) m else m);
               keys = (if mapped_fields \<noteq> []
                       then map (\<lambda>f. str_fqfield
                                        (FullQualifiedField (fqid_collection fq) (fqid_id fq) f))
                              mapped_fields
                       else [str_fqid fq]);
               ds' = (if lock_result
                      then ds\<lparr>ds_locked_fields :=
                                fold (\<lambda>k d. AList.update k (ds_position ds) d) keys
                                  (ds_locked_fields ds)\<rparr>
                      else ds)
           in (Inr result, ds')))"

text \<open>
  Collaborators for the runs below: a permission service that allows everything, the
  datastore read above, and a relation manager that finds no relation to update.
\<close>

definition example_services :: services where
  "example_services =
     \<lparr>is_allowed = (\<lambda>action_name uid pl. True),
      datastore_get = Datastore_get,
      get_relation_updates = (\<lambda>collection inst action_name arm ds. (Inr [], ds))\<rparr>"

definition example_datastore :: datastore where
  "example_datastore =
     \<lparr>ds_locked_fields = [],
      ds_additional_relation_models = [],
      ds_models = [(FullQualifiedId ''list_of_speakers'' 23,
                    [(''speaker_ids'', PList []), (''meeting_id'', PInt 7844)])],
      ds_position = 1\<rparr>"

text \<open>A compiled schema that accepts every instance.\<close>

definition accept_all :: "instance_dict \<Rightarrow> string option" where
  "accept_all inst = None"

text \<open>
  The action \<^verbatim>\<open>list_of_speakers.delete_all_speakers\<close> on these collaborators, over a
  delete action that is \<^verbatim>\<open>Action\<close> itself (its methods are not reached in the runs
  below).
\<close>

definition ExampleDeleteAllSpeakers :: action_class where
  "ExampleDeleteAllSpeakers =
     ListOfSpeakersDeleteAllSpeakersAction example_services
       (Action ''generic.delete'' ''speaker'' accept_all) accept_all"

text \<open>
  Two subclasses of \<^verbatim>\<open>Action\<close>, the first executed by the second:
  \<^verbatim>\<open>
  class ExampleInner(Action):
      def update_instance(self, instance):
          self.fetch_model(
              FullQualifiedId(Collection("list_of_speakers"), 23), ["speaker_ids"])
          return instance
      def create_write_requests(self, instance):
          return [self.build_write_request(
              EventType.Update, FullQualifiedId(Collection("speaker"), 1),
              "Object updated", {"weight": 1})]

  class ExampleOuter(Action):
      def create_write_requests(self, instance):
          self.execute_other_action(ExampleInner, [instance])
          return [self.build_write_request(
              EventType.Create, FullQualifiedId(Collection("topic"), 1),
              "Object created", {"title": "t"})]
  \<close>
\<close>

definition ExampleInner :: action_class where
  "ExampleInner =
     (Action ''example.inner'' ''speaker'' accept_all)
       \<lparr>base_update_instance :=
          (\<lambda>inst self.
             case fetch_model example_services (FullQualifiedId ''list_of_speakers'' 23)
                    [''speaker_ids''] self of
               (Inl e, self) \<Rightarrow> (Inl e, self)
             | (Inr _, self) \<Rightarrow> (Inr inst, self)),
        create_write_requests :=
          (\<lambda>inst self.
             (Inr [build_write_request self Update (FullQualifiedId ''speaker'' 1)
                     ''Object updated'' (Some [(''weight'', PInt 1)]) None], self))\<rparr>"

definition ExampleOuter :: action_class where
  "ExampleOuter =
     (Action ''example.outer'' ''topic'' accept_all)
       \<lparr>create_write_requests :=
          (\<lambda>inst self.
             case execute_other_action example_services ExampleInner [inst] [] self of
               (Inl e, self) \<Rightarrow> (Inl e, self)
             | (Inr _, self) \<Rightarrow>
                 (Inr [build_write_request self Create (FullQualifiedId ''topic'' 1)
                         ''Object created'' (Some [(''title'', PStr ''t'')]) None], self))\<rparr>"

text \<open>Write requests of one user, as an action has collected them before merging.\<close>

definition example_write_requests :: "write_request list" where
  "example_write_requests =
     [\<lparr>events = [Event Delete (FullQualifiedId ''speaker'' 1) None None,
                 Event Update (FullQualifiedId ''user'' 7) None None],
       information = [(FullQualifiedId ''speaker'' 1, [''Object deleted''])],
       user_id = 7, locked_fields = []\<rparr>,
      \<lparr>events = [Event Create (FullQualifiedId ''speaker'' 2) None None,
                 Event Update (FullQualifiedId ''user'' 8) None None],
       information = [(FullQualifiedId ''speaker'' 2, [''Object created''])],
       user_id = 7, locked_fields = []\<rparr>]"

text \<open>
  Relation updates as a relation manager returns them for a speaker created for user 7
  on list 23: one reference to set, one to clear, two lists to change, the last of
  them on neither side.
\<close>

definition example_relation_updates ::
  "(full_qualified_field \<times> relation_update_element) list" where
  "example_relation_updates =
     [(FullQualifiedField ''meeting'' 7844 ''default_speaker_id'', FieldUpdateElement Add (PInt 1)),
      (FullQualifiedField ''projector'' 3 ''current_speaker_id'', FieldUpdateElement Remove PNone),
      (FullQualifiedField ''list_of_speakers'' 23 ''speaker_ids'',
         ListUpdateElement [PInt 1] []),
      (FullQualifiedField ''user'' 7 ''speaker_ids'', ListUpdateElement [] [])]"

definition example_relation_services :: services where
  "example_relation_services =
     example_services
       \<lparr>get_relation_updates :=
          (\<lambda>collection inst action_name arm ds. (Inr example_relation_updates, ds))\<rparr>"

text \<open>
  Events on two tags: the first is created without a name, renamed and then deleted,
  the second is created with both of the fields that \<open>example_registry\<close> requires.
\<close>

definition example_tag_events :: "event list" where
  "example_tag_events =
     [Event Create (FullQualifiedId ''tag'' 1) (Some [(''name'', PStr [])]) None,
      Event Create (FullQualifiedId ''tag'' 2)
        (Some [(''name'', PStr ''a''), (''meeting_id'', PInt 577)]) None,
      Event Update (FullQualifiedId ''tag'' 1) (Some [(''name'', PStr ''x'')]) None,
      Event Delete (FullQualifiedId ''tag'' 1) None None]"

definition example_required :: "string \<Rightarrow> string list" where
  "example_required collection = [''name'', ''meeting_id'']"

text \<open>
  A schema that requires \<^verbatim>\<open>meeting_id\<close>, and collaborators whose relation manager
  fails for every instance; its \<^verbatim>\<open>ActionException\<close> is given the text of that schema.
\<close>

definition tag_create_validator :: "instance_dict \<Rightarrow> string option" where
  "tag_create_validator inst =
     (if map_of inst ''meeting_id'' = None then Some ''data must contain meeting_id''
      else None)"

definition example_failing_relation_services :: services where
  "example_failing_relation_services =
     example_services
       \<lparr>get_relation_updates :=
          (\<lambda>collection inst action_name arm ds.
             (Inl (ActionException ''data must contain meeting_id''), ds))\<rparr>"

text \<open>A datastore in whose registry a field is locked already.\<close>

definition example_locked_datastore :: datastore where
  "example_locked_datastore =
     example_datastore\<lparr>ds_locked_fields := [(''meeting/7844/name'', 1)]\<rparr>"

section \<open>Steps that keep the locks\<close>

text \<open>
  The keys of the locked-fields registry of the datastore that an action works on.
\<close>

definition lock_keys :: "action \<Rightarrow> string set" where
  "lock_keys self = fst ` set (ds_locked_fields (datastore self))"

text \<open>
  A step on \<^verbatim>\<open>self\<close> keeps the locks when every key that is in the registry before
  the step is in it afterwards, whatever the state it starts in and whether it
  returns or raises. A read that locks is such a step; resetting the registry is
  not.
\<close>

definition keeps_locks :: "(action \<Rightarrow> 'r \<times> action) \<Rightarrow> bool" where
  "keeps_locks step = (\<forall>self. lock_keys self \<subseteq> lock_keys (snd (step self)))"

text \<open>
  No step that \<^verbatim>\<open>perform\<close> runs before its merging removes a lock: the four methods
  of the class keep the locks, and so does the relation manager on the datastore.
\<close>

definition no_lock_reset :: "services \<Rightarrow> action_class \<Rightarrow> bool" where
  "no_lock_reset svc cls =
     ((\<forall>pl. \<forall>segment\<in>set (get_updated_instances cls pl). keeps_locks segment)
      \<and> (\<forall>inst. keeps_locks (base_update_instance cls inst))
      \<and> (\<forall>inst. keeps_locks (create_write_requests cls inst))
      \<and> (\<forall>inst. keeps_locks (create_action_result_element cls inst))
      \<and> (\<forall>collection inst action_name arm ds.
            fst ` set (ds_locked_fields ds)
              \<subseteq> fst ` set (ds_locked_fields
                   (snd (get_relation_updates svc collection inst action_name arm ds)))))"

section \<open>The folded view of one entity\<close>

text \<open>
  What one round of the first loop of \<^verbatim>\<open>validate_required_fields\<close> does to the entry
  of the key \<open>k\<close>: nothing for an event on another entity, and for an event on \<open>k\<close>
  what \<open>fold_event\<close> stores.
\<close>

definition view_step ::
  "full_qualified_id \<Rightarrow> event \<Rightarrow> (event_type \<times> instance_dict) option \<Rightarrow>
     (event_type \<times> instance_dict) option" where
  "view_step k ev v =
     (if fqid ev = k
      then Some (case v of
                   None \<Rightarrow> (etype ev, event_fields ev)
                 | Some (t, flds) \<Rightarrow>
                     if etype ev = Delete then (Delete, flds)
                     else (t, dict_update flds (event_fields ev)))
      else v)"

section \<open>Properties of merging\<close>

lemma merge_loop_events:
  "merge_loop wrs evs info uid = Inr (evs', info', uid') \<Longrightarrow> evs' = evs @ concat (map events wrs)"
proof (induction wrs arbitrary: evs info uid)
  case Nil
  then show ?case by simp
next
  case (Cons w rest)
  show ?case
  proof (cases uid)
    case None
    with Cons.prems have "merge_loop rest (evs @ events w)
        (fold merge_information (information w) info) (Some (user_id w)) = Inr (evs', info', uid')"
      by (simp add: Let_def)
    from Cons.IH[OF this] show ?thesis by simp
  next
    case (Some u)
    with Cons.prems have "merge_loop rest (evs @ events w)
        (fold merge_information (information w) info) (Some u) = Inr (evs', info', uid')"
      by (simp add: Let_def split: if_splits)
    from Cons.IH[OF this] show ?thesis by simp
  qed
qed

lemma merge_loop_Some_differs:
  "\<exists>w\<in>set wrs. user_id w \<noteq> u \<Longrightarrow>
   merge_loop wrs evs info (Some u) =
     Inl (ValueError ''You can not merge two write request elements of different users.'')"
  by (induction wrs arbitrary: evs info) (auto simp: Let_def)

lemma merge_loop_None_differs:
  assumes "a \<in> set wrs" "b \<in> set wrs" "user_id a \<noteq> user_id b"
  shows "merge_loop wrs evs info None =
     Inl (ValueError ''You can not merge two write request elements of different users.'')"
proof (cases wrs)
  case Nil
  with assms show ?thesis by simp
next
  case (Cons w rest)
  have "\<exists>x\<in>set rest. user_id x \<noteq> user_id w"
  proof (rule ccontr)
    assume "\<not> ?thesis"
    then have "\<forall>x\<in>set wrs. user_id x = user_id w" using Cons by auto
    with assms show False by metis
  qed
  then show ?thesis using Cons by (simp add: Let_def merge_loop_Some_differs)
qed

lemma merge_loop_Some_same:
  "\<forall>w\<in>set wrs. user_id w = u \<Longrightarrow>
   \<exists>info'. merge_loop wrs evs info (Some u) = Inr (evs @ concat (map events wrs), info', Some u)"
proof (induction wrs arbitrary: evs info)
  case Nil
  then show ?case by simp
next
  case (Cons w rest)
  then have "\<forall>x\<in>set rest. user_id x = u" and "user_id w = u" by auto
  from Cons.IH[OF this(1), of "evs @ events w" "fold merge_information (information w) info"]
  show ?case using \<open>user_id w = u\<close> by (simp add: Let_def)
qed

lemma merge_loop_None_same:
  "\<forall>w\<in>set wrs. user_id w = u \<Longrightarrow>
   \<exists>info' uid'. merge_loop wrs evs info None = Inr (evs @ concat (map events wrs), info', uid')"
proof (cases wrs)
  case Nil then show ?thesis by simp
next
  case (Cons w rest)
  assume "\<forall>w\<in>set wrs. user_id w = u"
  then have "\<forall>x\<in>set rest. user_id x = user_id w" using Cons by auto
  from merge_loop_Some_same[OF this, of "evs @ events w"
      "fold merge_information (information w) info"]
  show ?thesis using Cons by (auto simp add: Let_def)
qed

text \<open>
  Claim C3, as amended. Whenever two of the write requests carry different user
  ids, \<^verbatim>\<open>merge_write_requests\<close> raises the \<^verbatim>\<open>ValueError\<close> of the user check (an
  error of its own kind, none of the action exceptions). The empty list gives
  \<^verbatim>\<open>None\<close>, and so does every list without any event whose write requests all
  carry the same user id.
\<close>

theorem merge_write_requests_users_and_empty:
  "(a \<in> set wrs \<and> b \<in> set wrs \<and> user_id a \<noteq> user_id b \<longrightarrow>
      merge_write_requests wrs =
        Inl (ValueError ''You can not merge two write request elements of different users.''))
   \<and> merge_write_requests [] = Inr None
   \<and> (concat (map events ws) = [] \<and> (\<forall>w\<in>set ws. user_id w = u) \<longrightarrow>
        merge_write_requests ws = Inr None)"
proof (intro conjI impI)
  assume "a \<in> set wrs \<and> b \<in> set wrs \<and> user_id a \<noteq> user_id b"
  then have "merge_loop wrs [] [] None =
        Inl (ValueError ''You can not merge two write request elements of different users.'')"
    using merge_loop_None_differs[of a wrs b] by blast
  then show "merge_write_requests wrs =
        Inl (ValueError ''You can not merge two write request elements of different users.'')"
    by (simp add: merge_write_requests_def)
next
  show "merge_write_requests [] = Inr None"
    by (simp add: merge_write_requests_def)
next
  assume h: "concat (map events ws) = [] \<and> (\<forall>w\<in>set ws. user_id w = u)"
  then obtain info' uid' where "merge_loop ws [] [] None = Inr ([], info', uid')"
    using merge_loop_None_same[of ws u "[]" "[]"] by auto
  then show "merge_write_requests ws = Inr None"
    by (simp add: merge_write_requests_def)
qed

text \<open>
  The theorem at two lists: users 1 and 2, and two write requests of user 1 without
  events.
\<close>

theorem merge_write_requests_users_and_empty_witness:
  "merge_write_requests
     [\<lparr>events = [], information = [], user_id = 1, locked_fields = []\<rparr>,
      \<lparr>events = [Event Delete (FullQualifiedId ''speaker'' 3) None None], information = [],
       user_id = 2, locked_fields = []\<rparr>] =
     Inl (ValueError ''You can not merge two write request elements of different users.'')
   \<and> merge_write_requests
     [\<lparr>events = [], information = [(FullQualifiedId ''speaker'' 3, [''x''])], user_id = 1,
       locked_fields = []\<rparr>,
      \<lparr>events = [], information = [], user_id = 1, locked_fields = []\<rparr>] = Inr None"
  using merge_write_requests_users_and_empty
    [of "\<lparr>events = [], information = [], user_id = 1, locked_fields = []\<rparr>"
        "[\<lparr>events = [], information = [], user_id = 1, locked_fields = []\<rparr>,
      \<lparr>events = [Event Delete (FullQualifiedId ''speaker'' 3) None None], information = [],
       user_id = 2, locked_fields = []\<rparr>]"
      "\<lparr>events = [Event Delete (FullQualifiedId ''speaker'' 3) None None], information = [],
       user_id = 2, locked_fields = []\<rparr>"
      "[\<lparr>events = [], information = [(FullQualifiedId ''speaker'' 3, [''x''])], user_id = 1,
       locked_fields = []\<rparr>,
      \<lparr>events = [], information = [], user_id = 1, locked_fields = []\<rparr>]" 1]
  by simp

text \<open>
  Claim C3 as it was stated fails: two write requests without any event, of the
  users 1 and 2, are not merged to \<^verbatim>\<open>None\<close>; the user check raises first.
\<close>

theorem merge_write_requests_no_events_counterexample:
  "concat (map events
     [\<lparr>events = [], information = [], user_id = 1, locked_fields = []\<rparr>,
      \<lparr>events = [], information = [], user_id = 2, locked_fields = []\<rparr>]) = []
   \<and> merge_write_requests
     [\<lparr>events = [], information = [], user_id = 1, locked_fields = []\<rparr>,
      \<lparr>events = [], information = [], user_id = 2, locked_fields = []\<rparr>] \<noteq> Inr None"
  by (simp add: merge_write_requests_def)

section \<open>Ordering of the merged events\<close>

lemma group_events_fold:
  "fold (\<lambda>ev by_type. by_type(etype ev := by_type (etype ev) @ [ev])) evs acc t =
     acc t @ filter (\<lambda>e. etype e = t) evs"
  by (induction evs arbitrary: acc) auto

lemma group_events_by_type_filter:
  "group_events_by_type evs t = filter (\<lambda>e. etype e = t) evs"
  by (simp add: group_events_by_type_def group_events_fold)

lemma merge_write_requests_Some:
  assumes "merge_write_requests wrs = Inr (Some wr)"
  shows "events wr = concat (map events wrs) \<and> events wr \<noteq> [] \<and> locked_fields wr = []"
proof -
  from assms obtain evs info uid where
    l: "merge_loop wrs [] [] None = Inr (evs, info, uid)"
    by (auto simp: merge_write_requests_def split: sum.splits)
  from merge_loop_events[OF l] have "evs = concat (map events wrs)" by simp
  with assms l show ?thesis
    by (auto simp: merge_write_requests_def split: if_splits option.splits)
qed

text \<open>
  Claim C2. A write request that \<^verbatim>\<open>process_write_requests\<close> returns has events; they
  are the events of the collected write requests in the order of their production,
  all Create events first, then all Update events, then all Delete events, each
  kind in its order of production.
\<close>

theorem process_write_requests_sorted:
  assumes "process_write_requests self = (Inr (Some wr), self')"
  shows "events wr \<noteq> []
     \<and> events wr =
         filter (\<lambda>e. etype e = Create) (concat (map events (write_requests self)))
       @ filter (\<lambda>e. etype e = Update) (concat (map events (write_requests self)))
       @ filter (\<lambda>e. etype e = Delete) (concat (map events (write_requests self)))"
proof -
  from assms obtain m where m: "merge_write_requests (write_requests self) = Inr (Some m)"
    by (auto simp: process_write_requests_def split: sum.splits option.splits)
  from merge_write_requests_Some[OF m]
  have ev: "events m = concat (map events (write_requests self))" and ne: "events m \<noteq> []"
    by blast+
  from assms m have wr: "events wr =
      filter (\<lambda>e. etype e = Create) (events m) @ filter (\<lambda>e. etype e = Update) (events m)
      @ filter (\<lambda>e. etype e = Delete) (events m)"
    by (auto simp: process_write_requests_def Let_def group_events_by_type_filter)
  have "filter (\<lambda>e. etype e = Create) (events m) @ filter (\<lambda>e. etype e = Update) (events m)
      @ filter (\<lambda>e. etype e = Delete) (events m) \<noteq> []"
  proof (cases "events m")
    case Nil with ne show ?thesis by simp
  next
    case (Cons e es)
    then show ?thesis by (cases "etype e") auto
  qed
  with wr ev show ?thesis by simp
qed

text \<open>
  The theorem on the collected write requests \<open>example_write_requests\<close>, which hold a
  Delete, an Update, a Create and an Update in this order.
\<close>

theorem process_write_requests_sorted_witness:
  "process_write_requests
     ((Action_init example_datastore [])\<lparr>write_requests := example_write_requests\<rparr>) =
     (Inr (Some
        \<lparr>events = [Event Create (FullQualifiedId ''speaker'' 2) None None,
                   Event Update (FullQualifiedId ''user'' 7) None None,
                   Event Update (FullQualifiedId ''user'' 8) None None,
                   Event Delete (FullQualifiedId ''speaker'' 1) None None],
          information = [(FullQualifiedId ''speaker'' 1, [''Object deleted'']),
                         (FullQualifiedId ''speaker'' 2, [''Object created''])],
          user_id = 7, locked_fields = []\<rparr>),
      (Action_init example_datastore [])\<lparr>write_requests := example_write_requests\<rparr>)"
proof -
  have run: "process_write_requests
     ((Action_init example_datastore [])\<lparr>write_requests := example_write_requests\<rparr>) =
     (Inr (Some
        \<lparr>events = [Event Create (FullQualifiedId ''speaker'' 2) None None,
                   Event Update (FullQualifiedId ''user'' 7) None None,
                   Event Update (FullQualifiedId ''user'' 8) None None,
                   Event Delete (FullQualifiedId ''speaker'' 1) None None],
          information = [(FullQualifiedId ''speaker'' 1, [''Object deleted'']),
                         (FullQualifiedId ''speaker'' 2, [''Object created''])],
          user_id = 7, locked_fields = []\<rparr>),
      (Action_init example_datastore [])\<lparr>write_requests := example_write_requests\<rparr>)"
    by code_simp
  from process_write_requests_sorted [OF run] run show ?thesis
    by simp
qed

section \<open>Validation and permission in perform\<close>

lemma validate_payload_fails:
  assumes "i < length pl" "schema_validator cls (pl ! i) = Some message"
    "\<forall>j<i. schema_validator cls (pl ! j) = None"
  shows "validate_payload cls pl self =
           (Inl (ActionException message), self\<lparr>index := index self + int i\<rparr>)"
  using assms
proof (induction pl arbitrary: i self)
  case Nil
  then show ?case by simp
next
  case (Cons element rest)
  show ?case
  proof (cases i)
    case 0
    with Cons.prems show ?thesis by (simp add: validate_payload_element_def)
  next
    case (Suc k)
    with Cons.prems have k: "k < length rest" "schema_validator cls (rest ! k) = Some message"
      by simp_all
    have first: "schema_validator cls element = None"
      using Cons.prems(3) Suc by (metis nth_Cons_0 zero_less_Suc)
    have others: "\<forall>j<k. schema_validator cls (rest ! j) = None"
    proof (intro allI impI)
      fix j assume "j < k"
      then have "Suc j < i" using Suc by simp
      with Cons.prems(3) have "schema_validator cls ((element # rest) ! Suc j) = None" by blast
      then show "schema_validator cls (rest ! j) = None" by simp
    qed
    from Cons.IH[OF k others, of "self\<lparr>index := index self + 1\<rparr>"] first Suc
    show ?thesis by (simp add: validate_payload_element_def)
  qed
qed

lemma validate_payload_passes:
  "\<forall>element\<in>set pl. schema_validator cls element = None \<Longrightarrow>
   validate_payload cls pl self = (Inr (), self\<lparr>index := index self + int (length pl)\<rparr>)"
  by (induction pl arbitrary: self) (auto simp: validate_payload_element_def)

text \<open>
  Claim C4, as amended. When the element at index \<open>i\<close> is the first that the compiled
  schema refuses, with the diagnostic \<open>message\<close>, then validating it raises
  \<^verbatim>\<open>ActionException\<close> with that message and leaves the action and its datastore, in
  whatever state \<open>s\<close> they are, as they were; and \<^verbatim>\<open>perform\<close> raises this exception
  whatever the collaborators, the flag \<^verbatim>\<open>internal\<close> and the other methods of the
  action are: no other step has run. After it nothing has changed but the user id
  and the cursor \<^verbatim>\<open>index\<close>, which stands at \<open>i\<close>: every element before was validated,
  the datastore and the collected write requests are untouched.
\<close>

theorem perform_schema_violation:
  assumes "i < length pl" "schema_validator cls (pl ! i) = Some message"
    "\<forall>j<i. schema_validator cls (pl ! j) = None"
  shows "validate_payload_element cls (pl ! i) s = (Inl (ActionException message), s)
     \<and> perform svc cls pl uid internal self =
         (Inl (ActionException message), self\<lparr>self_user_id := uid, index := int i\<rparr>)"
proof -
  have "validate_payload cls pl (self\<lparr>self_user_id := uid, index := 0\<rparr>) =
      (Inl (ActionException message), self\<lparr>self_user_id := uid, index := int i\<rparr>)"
    using validate_payload_fails[OF assms, of "self\<lparr>self_user_id := uid, index := 0\<rparr>"] by simp
  then show ?thesis using assms(2)
    by (simp add: perform_def perform_instances_def validate_payload_element_def)
qed

text \<open>
  The theorem on a payload of two elements, of which the second lacks
  \<^verbatim>\<open>meeting_id\<close>, for a user without permission: the first element passes, the
  message of the schema is raised for the second and not \<^verbatim>\<open>PermissionDenied\<close>, and
  the cursor stands at 1.
\<close>

theorem perform_schema_violation_witness:
  "schema_validator (Action ''tag.create'' ''tag'' tag_create_validator)
     ([[(''name'', PStr ''a''), (''meeting_id'', PInt 577)], [(''name'', PStr ''b'')]] ! 0) = None
   \<and> schema_validator (Action ''tag.create'' ''tag'' tag_create_validator)
     ([[(''name'', PStr ''a''), (''meeting_id'', PInt 577)], [(''name'', PStr ''b'')]] ! 1) =
       Some ''data must contain meeting_id''
   \<and> perform (example_services\<lparr>is_allowed := \<lambda>n u pl. False\<rparr>)
         (Action ''tag.create'' ''tag'' tag_create_validator)
         [[(''name'', PStr ''a''), (''meeting_id'', PInt 577)], [(''name'', PStr ''b'')]]
         7 False (Action_init example_datastore []) =
        (Inl (ActionException ''data must contain meeting_id''),
         (Action_init example_datastore [])\<lparr>self_user_id := 7, index := 1\<rparr>)"
  using perform_schema_violation [where i = 1
      and pl = "[[(''name'', PStr ''a''), (''meeting_id'', PInt 577)], [(''name'', PStr ''b'')]]"
      and cls = "Action ''tag.create'' ''tag'' tag_create_validator"
      and message = "''data must contain meeting_id''"
      and svc = "example_services\<lparr>is_allowed := \<lambda>n u pl. False\<rparr>"
      and uid = 7 and internal = False
      and self = "Action_init example_datastore []"
      and s = "Action_init example_datastore []"]
  by (simp add: Action_def tag_create_validator_def)

text \<open>
  Claim C4 as it was stated fails in the kind of the error: there is no schema
  violation error apart from \<^verbatim>\<open>ActionException\<close>. A payload that the schema refuses
  and a payload that passes the schema and then fails in the relation manager
  give the same error, an \<^verbatim>\<open>ActionException\<close> with the same text.
\<close>

theorem perform_schema_violation_counterexample:
  "fst (perform example_services (Action ''tag.create'' ''tag'' tag_create_validator)
          [[(''name'', PStr ''b'')]] 7 False (Action_init example_datastore [])) =
     Inl (ActionException ''data must contain meeting_id'')
   \<and> fst (perform example_failing_relation_services (Action ''tag.create'' ''tag'' accept_all)
          [[(''name'', PStr ''b'')]] 7 False (Action_init example_datastore [])) =
     Inl (ActionException ''data must contain meeting_id'')"
  by code_simp

lemma handle_relation_updates_is_allowed:
  "handle_relation_updates (svc\<lparr>is_allowed := p\<rparr>) cls inst self =
   handle_relation_updates svc cls inst self"
  by (simp add: handle_relation_updates_def)

lemma process_instances_is_allowed:
  "process_instances (svc\<lparr>is_allowed := p\<rparr>) cls insts results self =
   process_instances svc cls insts results self"
proof (induction insts arbitrary: results self)
  case Nil
  then show ?case by simp
next
  case (Cons inst rest)
  show ?case
    by (simp add: handle_relation_updates_is_allowed Cons.IH Let_def
             split: prod.splits sum.splits)
qed

lemma process_segments_is_allowed:
  "process_segments (svc\<lparr>is_allowed := p\<rparr>) cls segs results self =
   process_segments svc cls segs results self"
proof (induction segs arbitrary: results self)
  case Nil
  then show ?case by simp
next
  case (Cons seg rest)
  show ?case
    by (simp add: process_instances_is_allowed Cons.IH split: prod.splits sum.splits)
qed

text \<open>
  Claim C7. With \<^verbatim>\<open>internal\<close> true the result and the state of \<^verbatim>\<open>perform\<close> are the
  same for every permission service \<open>p\<close> put in the place of the given one: it is
  not consulted. With \<^verbatim>\<open>internal\<close> false, a payload that passes the schema and a
  permission service that answers false for (action name, user id, payload),
  \<^verbatim>\<open>perform\<close> raises \<^verbatim>\<open>PermissionDenied\<close>; the state differs from the one before
  only in the user id and the cursor, so no instance was transformed or processed
  and no write request was collected.
\<close>

theorem perform_permission:
  "perform (svc\<lparr>is_allowed := p\<rparr>) cls pl uid True self = perform svc cls pl uid True self
   \<and> ((\<forall>element\<in>set pl. schema_validator cls element = None)
        \<and> \<not> is_allowed svc (name cls) uid pl \<longrightarrow>
      perform svc cls pl uid False self =
        (Inl (PermissionDenied (''You are not allowed to perform action '' @ name cls @ ''.'')),
         self\<lparr>self_user_id := uid, index := - 1\<rparr>))"
proof (intro conjI impI)
  show "perform (svc\<lparr>is_allowed := p\<rparr>) cls pl uid True self = perform svc cls pl uid True self"
    by (simp add: perform_def perform_instances_def process_segments_is_allowed Let_def
             split: prod.splits sum.splits)
next
  assume h: "(\<forall>element\<in>set pl. schema_validator cls element = None)
        \<and> \<not> is_allowed svc (name cls) uid pl"
  then have v: "validate_payload cls pl (self\<lparr>self_user_id := uid, index := 0\<rparr>) =
      (Inr (), self\<lparr>self_user_id := uid, index := int (length pl)\<rparr>)"
    using validate_payload_passes[of pl cls "self\<lparr>self_user_id := uid, index := 0\<rparr>"] by simp
  show "perform svc cls pl uid False self =
        (Inl (PermissionDenied (''You are not allowed to perform action '' @ name cls @ ''.'')),
         self\<lparr>self_user_id := uid, index := - 1\<rparr>)"
    using h by (simp add: perform_def perform_instances_def v check_permissions_def)
qed

text \<open>
  The theorem for \<open>ExampleInner\<close> and a permission service that refuses everything.
\<close>

theorem perform_permission_witness:
  "\<not> is_allowed (example_services\<lparr>is_allowed := \<lambda>n u pl. False\<rparr>) (name ExampleInner) 7
         [[(''id'', PInt 1)]]
   \<and> perform (example_services\<lparr>is_allowed := \<lambda>n u pl. False\<rparr>) ExampleInner
         [[(''id'', PInt 1)]] 7 False (Action_init example_datastore []) =
        (Inl (PermissionDenied ''You are not allowed to perform action example.inner.''),
         (Action_init example_datastore [])\<lparr>self_user_id := 7, index := - 1\<rparr>)"
  using perform_permission [where svc = "example_services\<lparr>is_allowed := \<lambda>n u pl. False\<rparr>"
      and cls = ExampleInner and pl = "[[(''id'', PInt 1)]]" and uid = 7
      and self = "Action_init example_datastore []"]
  by (simp add: ExampleInner_def Action_def accept_all_def)

section \<open>Write requests for relation updates\<close>

text \<open>
  Claim C8. When the relation manager returns \<open>relation_updates\<close>,
  \<^verbatim>\<open>handle_relation_updates\<close> yields one write request for each of its elements, in
  their order, each with exactly one event: an Update of the entity that the
  fully qualified field names (its collection and id). A field update sets the field
  to the value and is annotated "Object attached to X" for an add and "Object
  attachment to X reset" for a remove, X being the collection; a list update is
  annotated "Object updated" and carries under \<^verbatim>\<open>add\<close> and \<^verbatim>\<open>remove\<close> the sides that
  are not empty, and no list fields at all when both are empty.
\<close>

theorem handle_relation_updates_events:
  assumes "get_relation_updates svc (model cls) inst (name cls)
             (additional_relation_models self) (datastore self) = (Inr relation_updates, ds')"
  shows "\<exists>wrs. handle_relation_updates svc cls inst self = (Inr wrs, self\<lparr>datastore := ds'\<rparr>)
     \<and> length wrs = length relation_updates
     \<and> (\<forall>i<length relation_updates.
          (let fqfield = fst (relation_updates ! i);
               target = FullQualifiedId (fqfield_collection fqfield) (fqfield_id fqfield)
           in wrs ! i =
               \<lparr>events =
                  [case snd (relation_updates ! i) of
                     FieldUpdateElement t v \<Rightarrow>
                       Event Update target (Some [(fqfield_field fqfield, v)]) None
                   | ListUpdateElement add_ids remove_ids \<Rightarrow>
                       Event Update target None
                         (if add_ids = [] \<and> remove_ids = [] then None
                          else Some
                            ((if add_ids \<noteq> []
                              then [(''add'', [(fqfield_field fqfield, add_ids)])] else [])
                           @ (if remove_ids \<noteq> []
                              then [(''remove'', [(fqfield_field fqfield, remove_ids)])]
                              else [])))],
                information =
                  [(target,
                    [case snd (relation_updates ! i) of
                       FieldUpdateElement t v \<Rightarrow>
                         (case t of
                            Add \<Rightarrow> ''Object attached to '' @ fqfield_collection fqfield
                          | Remove \<Rightarrow>
                              ''Object attachment to '' @ fqfield_collection fqfield @ '' reset'')
                     | ListUpdateElement add_ids remove_ids \<Rightarrow> ''Object updated''])],
                user_id = self_user_id self,
                locked_fields = []\<rparr>))"
proof -
  have one: "relation_update_write_request (self\<lparr>datastore := ds'\<rparr>) item =
      (let fqfield = fst item;
           target = FullQualifiedId (fqfield_collection fqfield) (fqfield_id fqfield)
       in \<lparr>events =
                  [case snd item of
                     FieldUpdateElement t v \<Rightarrow>
                       Event Update target (Some [(fqfield_field fqfield, v)]) None
                   | ListUpdateElement add_ids remove_ids \<Rightarrow>
                       Event Update target None
                         (if add_ids = [] \<and> remove_ids = [] then None
                          else Some
                            ((if add_ids \<noteq> []
                              then [(''add'', [(fqfield_field fqfield, add_ids)])] else [])
                           @ (if remove_ids \<noteq> []
                              then [(''remove'', [(fqfield_field fqfield, remove_ids)])]
                              else [])))],
                information =
                  [(target,
                    [case snd item of
                       FieldUpdateElement t v \<Rightarrow>
                         (case t of
                            Add \<Rightarrow> ''Object attached to '' @ fqfield_collection fqfield
                          | Remove \<Rightarrow>
                              ''Object attachment to '' @ fqfield_collection fqfield @ '' reset'')
                     | ListUpdateElement add_ids remove_ids \<Rightarrow> ''Object updated''])],
                user_id = self_user_id self,
                locked_fields = []\<rparr>)" for item
    by (cases "snd item")
       (auto simp: relation_update_write_request_def build_write_request_def Let_def
             split: field_update_type.splits)
  show ?thesis
    using assms by (simp add: handle_relation_updates_def one)
qed

text \<open>
  The theorem on \<open>example_relation_updates\<close>: an add, a remove, a list update with
  ids to add and one with nothing on either side.
\<close>

theorem handle_relation_updates_events_witness:
  "handle_relation_updates example_relation_services
     (Action ''speaker.create'' ''speaker'' accept_all)
     [(''user_id'', PInt 7), (''list_of_speakers_id'', PInt 23)]
     ((Action_init example_datastore [])\<lparr>self_user_id := 7\<rparr>) =
   (Inr [\<lparr>events = [Event Update (FullQualifiedId ''meeting'' 7844)
                       (Some [(''default_speaker_id'', PInt 1)]) None],
           information = [(FullQualifiedId ''meeting'' 7844, [''Object attached to meeting''])],
           user_id = 7, locked_fields = []\<rparr>,
         \<lparr>events = [Event Update (FullQualifiedId ''projector'' 3)
                       (Some [(''current_speaker_id'', PNone)]) None],
           information = [(FullQualifiedId ''projector'' 3,
                           [''Object attachment to projector reset''])],
           user_id = 7, locked_fields = []\<rparr>,
         \<lparr>events = [Event Update (FullQualifiedId ''list_of_speakers'' 23) None
                       (Some [(''add'', [(''speaker_ids'', [PInt 1])])])],
           information = [(FullQualifiedId ''list_of_speakers'' 23, [''Object updated''])],
           user_id = 7, locked_fields = []\<rparr>,
         \<lparr>events = [Event Update (FullQualifiedId ''user'' 7) None None],
           information = [(FullQualifiedId ''user'' 7, [''Object updated''])],
           user_id = 7, locked_fields = []\<rparr>],
    (Action_init example_datastore [])\<lparr>self_user_id := 7\<rparr>)"
proof -
  have g: "get_relation_updates example_relation_services
             (model (Action ''speaker.create'' ''speaker'' accept_all))
             [(''user_id'', PInt 7), (''list_of_speakers_id'', PInt 23)]
             (name (Action ''speaker.create'' ''speaker'' accept_all))
             (additional_relation_models ((Action_init example_datastore [])\<lparr>self_user_id := 7\<rparr>))
             (datastore ((Action_init example_datastore [])\<lparr>self_user_id := 7\<rparr>)) =
           (Inr example_relation_updates, example_datastore)"
    by (simp add: example_relation_services_def Action_init_def)
  have run: "handle_relation_updates example_relation_services
     (Action ''speaker.create'' ''speaker'' accept_all)
     [(''user_id'', PInt 7), (''list_of_speakers_id'', PInt 23)]
     ((Action_init example_datastore [])\<lparr>self_user_id := 7\<rparr>) =
   (Inr [\<lparr>events = [Event Update (FullQualifiedId ''meeting'' 7844)
                       (Some [(''default_speaker_id'', PInt 1)]) None],
           information = [(FullQualifiedId ''meeting'' 7844, [''Object attached to meeting''])],
           user_id = 7, locked_fields = []\<rparr>,
         \<lparr>events = [Event Update (FullQualifiedId ''projector'' 3)
                       (Some [(''current_speaker_id'', PNone)]) None],
           information = [(FullQualifiedId ''projector'' 3,
                           [''Object attachment to projector reset''])],
           user_id = 7, locked_fields = []\<rparr>,
         \<lparr>events = [Event Update (FullQualifiedId ''list_of_speakers'' 23) None
                       (Some [(''add'', [(''speaker_ids'', [PInt 1])])])],
           information = [(FullQualifiedId ''list_of_speakers'' 23, [''Object updated''])],
           user_id = 7, locked_fields = []\<rparr>,
         \<lparr>events = [Event Update (FullQualifiedId ''user'' 7) None None],
           information = [(FullQualifiedId ''user'' 7, [''Object updated''])],
           user_id = 7, locked_fields = []\<rparr>],
    (Action_init example_datastore [])\<lparr>self_user_id := 7\<rparr>)"
    by code_simp
  from handle_relation_updates_events [OF g] run show ?thesis
    by simp
qed

section \<open>Reading a model\<close>

lemma restrict_fold_map_of:
  "map_of (fold (\<lambda>field d. AList.update field (g field) d) fs acc) f =
     (if f \<in> set fs then Some (g f) else map_of acc f)"
  by (induction fs arbitrary: acc) (auto simp: update_conv')

lemma restrict_fold_keys:
  "distinct (map fst acc) \<Longrightarrow>
   distinct (map fst (fold (\<lambda>field d. AList.update field (g field) d) fs acc))"
  by (induction fs arbitrary: acc) (auto simp: distinct_update)

text \<open>
  Claim C10. When the id is a key of \<^verbatim>\<open>additional_relation_models\<close>, \<^verbatim>\<open>fetch_model\<close>
  answers with the model stored there, or, when \<open>mapped_fields\<close> are given, with a
  dictionary of exactly these fields, each with the model's value or \<^verbatim>\<open>None\<close> where
  the model has none; the action and its datastore, so also the locked-fields
  registry, are what they were, and the answer is the same for every datastore
  collaborator. Only when the id is no key, the answer and the new datastore are
  those of \<^verbatim>\<open>datastore.get\<close>, called with \<^verbatim>\<open>lock_result=True\<close>.
\<close>

theorem fetch_model_additional:
  "(map_of (additional_relation_models self) fq = Some additional_model \<longrightarrow>
      (\<exists>m. fetch_model svc fq mapped_fields self = (Inr m, self)
         \<and> fetch_model other_svc fq mapped_fields self = (Inr m, self)
         \<and> (mapped_fields = [] \<longrightarrow> m = additional_model)
         \<and> (mapped_fields \<noteq> [] \<longrightarrow> distinct (map fst m)
              \<and> (\<forall>f. map_of m f =
                     (if f \<in> set mapped_fields
                      then Some (case map_of additional_model f of None \<Rightarrow> PNone | Some v \<Rightarrow> v)
                      else None)))))
   \<and> (map_of (additional_relation_models self) fq = None \<longrightarrow>
        fetch_model svc fq mapped_fields self =
          (fst (datastore_get svc fq mapped_fields True (datastore self)),
           self\<lparr>datastore := snd (datastore_get svc fq mapped_fields True (datastore self))\<rparr>))"
  by (auto simp: fetch_model_def restrict_fold_map_of restrict_fold_keys dict_get_value_def
           split: prod.splits)

text \<open>
  The theorem for list of speakers 23: once it is among the additional relation
  models, where the read is answered without the datastore, and once it is not, where
  the read locks the field in the registry.
\<close>

theorem fetch_model_additional_witness:
  "fetch_model example_services (FullQualifiedId ''list_of_speakers'' 23)
     [''speaker_ids'', ''closed'']
     (Action_init example_datastore
        [(FullQualifiedId ''list_of_speakers'' 23, [(''speaker_ids'', PList [PInt 1])])]) =
     (Inr [(''speaker_ids'', PList [PInt 1]), (''closed'', PNone)],
      Action_init example_datastore
        [(FullQualifiedId ''list_of_speakers'' 23, [(''speaker_ids'', PList [PInt 1])])])
   \<and> fetch_model example_services (FullQualifiedId ''list_of_speakers'' 23) [''speaker_ids'']
       (Action_init example_datastore []) =
     (Inr [(''speaker_ids'', PList [])],
      Action_init
        (example_datastore\<lparr>ds_locked_fields := [(''list_of_speakers/23/speaker_ids'', 1)]\<rparr>) [])"
proof -
  have a: "map_of (additional_relation_models (Action_init example_datastore [])) 
             (FullQualifiedId ''list_of_speakers'' 23) = None"
    by (simp add: Action_init_def)
  have b: "datastore_get example_services (FullQualifiedId ''list_of_speakers'' 23)
             [''speaker_ids''] True (datastore (Action_init example_datastore [])) =
           (Inr [(''speaker_ids'', PList [])],
            example_datastore\<lparr>ds_locked_fields := [(''list_of_speakers/23/speaker_ids'', 1)]\<rparr>)"
    by code_simp
  have first: "fetch_model example_services (FullQualifiedId ''list_of_speakers'' 23)
     [''speaker_ids'', ''closed'']
     (Action_init example_datastore
        [(FullQualifiedId ''list_of_speakers'' 23, [(''speaker_ids'', PList [PInt 1])])]) =
     (Inr [(''speaker_ids'', PList [PInt 1]), (''closed'', PNone)],
      Action_init example_datastore
        [(FullQualifiedId ''list_of_speakers'' 23, [(''speaker_ids'', PList [PInt 1])])])"
    by code_simp
  from fetch_model_additional
    [where self = "Action_init example_datastore []"
       and fq = "FullQualifiedId ''list_of_speakers'' 23"
       and svc = example_services and other_svc = example_services
       and mapped_fields = "[''speaker_ids'']"
       and additional_model = "[]"]
  have "fetch_model example_services (FullQualifiedId ''list_of_speakers'' 23) [''speaker_ids'']
       (Action_init example_datastore []) =
     (Inr [(''speaker_ids'', PList [])],
      (Action_init example_datastore [])
        \<lparr>datastore :=
           example_datastore\<lparr>ds_locked_fields := [(''list_of_speakers/23/speaker_ids'', 1)]\<rparr>\<rparr>)"
    using a b by simp
  with first show ?thesis by (simp add: Action_init_def)
qed

section \<open>Deleting all speakers of a list without speakers\<close>

lemma delete_all_speakers_segment_empty:
  assumes "P (datastore self)"
    and "map_of element ''id'' = Some (PInt i)"
    and "case map_of (additional_relation_models self) (FullQualifiedId ''list_of_speakers'' i) of
           Some m \<Rightarrow> \<not> truthy (dict_get_value m ''speaker_ids'')
         | None \<Rightarrow>
             (\<forall>d. P d \<longrightarrow>
                (\<exists>m d'. datastore_get svc (FullQualifiedId ''list_of_speakers'' i)
                           [''speaker_ids''] True d = (Inr m, d')
                   \<and> P d' \<and> \<not> truthy (dict_get_value m ''speaker_ids'')))"
  shows "\<exists>d'. P d' \<and> delete_all_speakers_segment svc element self =
           (Inr [], self\<lparr>datastore := d'\<rparr>)"
proof (cases "map_of (additional_relation_models self) (FullQualifiedId ''list_of_speakers'' i)")
  case (Some m)
  with assms(3) have "\<not> truthy (dict_get_value m ''speaker_ids'')" by simp
  then have "delete_all_speakers_segment svc element self = (Inr [], self)"
    using Some assms(2)
    by (simp add: delete_all_speakers_segment_def fetch_model_def dict_get_value_def)
  then show ?thesis using assms(1) by (intro exI[of _ "datastore self"]) simp
next
  case None
  with assms(1,3) obtain m d' where
    g: "datastore_get svc (FullQualifiedId ''list_of_speakers'' i) [''speaker_ids''] True
          (datastore self) = (Inr m, d')"
    and "P d'" and f: "\<not> truthy (dict_get_value m ''speaker_ids'')"
    by auto
  have "delete_all_speakers_segment svc element self = (Inr [], self\<lparr>datastore := d'\<rparr>)"
    using None assms(2) g f
    by (simp add: delete_all_speakers_segment_def fetch_model_def)
  with \<open>P d'\<close> show ?thesis by blast
qed

lemma delete_all_speakers_segments_empty:
  assumes "P (datastore self)"
    and "\<forall>element\<in>set pl. \<exists>i. map_of element ''id'' = Some (PInt i)
       \<and> (case map_of (additional_relation_models self)
                  (FullQualifiedId ''list_of_speakers'' i) of
           Some m \<Rightarrow> \<not> truthy (dict_get_value m ''speaker_ids'')
         | None \<Rightarrow>
             (\<forall>d. P d \<longrightarrow>
                (\<exists>m d'. datastore_get svc (FullQualifiedId ''list_of_speakers'' i)
                           [''speaker_ids''] True d = (Inr m, d')
                   \<and> P d' \<and> \<not> truthy (dict_get_value m ''speaker_ids''))))"
  shows "\<exists>d'. P d' \<and> process_segments svc cls (map (delete_all_speakers_segment svc) pl)
            results self = (Inr results, self\<lparr>datastore := d'\<rparr>)"
  using assms
proof (induction pl arbitrary: self)
  case Nil
  then show ?case by (intro exI[of _ "datastore self"]) simp
next
  case (Cons element rest)
  from Cons.prems(2) obtain i where
    i: "map_of element ''id'' = Some (PInt i)"
    and m: "case map_of (additional_relation_models self)
                  (FullQualifiedId ''list_of_speakers'' i) of
           Some m \<Rightarrow> \<not> truthy (dict_get_value m ''speaker_ids'')
         | None \<Rightarrow>
             (\<forall>d. P d \<longrightarrow>
                (\<exists>m d'. datastore_get svc (FullQualifiedId ''list_of_speakers'' i)
                           [''speaker_ids''] True d = (Inr m, d')
                   \<and> P d' \<and> \<not> truthy (dict_get_value m ''speaker_ids'')))"
    by auto
  from delete_all_speakers_segment_empty[OF Cons.prems(1) i m] obtain d1 where
    d1: "P d1" "delete_all_speakers_segment svc element self = (Inr [], self\<lparr>datastore := d1\<rparr>)"
    by blast
  have "P (datastore (self\<lparr>datastore := d1\<rparr>))" using d1(1) by simp
  moreover have "\<forall>element\<in>set rest. \<exists>i. map_of element ''id'' = Some (PInt i)
       \<and> (case map_of (additional_relation_models (self\<lparr>datastore := d1\<rparr>))
                  (FullQualifiedId ''list_of_speakers'' i) of
           Some m \<Rightarrow> \<not> truthy (dict_get_value m ''speaker_ids'')
         | None \<Rightarrow>
             (\<forall>d. P d \<longrightarrow>
                (\<exists>m d'. datastore_get svc (FullQualifiedId ''list_of_speakers'' i)
                           [''speaker_ids''] True d = (Inr m, d')
                   \<and> P d' \<and> \<not> truthy (dict_get_value m ''speaker_ids''))))"
    using Cons.prems(2) by simp
  ultimately obtain d' where d': "P d'"
    "process_segments svc cls (map (delete_all_speakers_segment svc) rest) results
       (self\<lparr>datastore := d1\<rparr>) = (Inr results, self\<lparr>datastore := d1, datastore := d'\<rparr>)"
    using Cons.IH[of "self\<lparr>datastore := d1\<rparr>"] by auto
  show ?case
    using d1(2) d' by (intro exI[of _ d']) simp
qed

text \<open>
  Claim C9. Let the payload pass the schema and the permission check, and let every
  element name, by an integer \<^verbatim>\<open>id\<close>, a list of speakers whose \<^verbatim>\<open>speaker_ids\<close> is
  empty or absent (not truthy): in the additional relation models if the list is
  there, in the answer of the datastore otherwise. The datastore is any collaborator
  whose reads of these lists keep an invariant \<open>P\<close> of its state, under which it
  gives that answer. Then \<^verbatim>\<open>perform\<close> on a new action of the class
  \<^verbatim>\<open>list_of_speakers.delete_all_speakers\<close> processes no instance (there is no
  result), collects no write request and returns \<^verbatim>\<open>None\<close> for the write request.
\<close>

theorem delete_all_speakers_nothing_to_delete:
  assumes "\<forall>element\<in>set pl. validator element = None"
    and "internal \<or> is_allowed svc ''list_of_speakers.delete_all_speakers'' uid pl"
    and "P ds"
    and "\<forall>element\<in>set pl. \<exists>i. map_of element ''id'' = Some (PInt i)
       \<and> (case map_of arm (FullQualifiedId ''list_of_speakers'' i) of
           Some m \<Rightarrow> \<not> truthy (dict_get_value m ''speaker_ids'')
         | None \<Rightarrow>
             (\<forall>d. P d \<longrightarrow>
                (\<exists>m d'. datastore_get svc (FullQualifiedId ''list_of_speakers'' i)
                           [''speaker_ids''] True d = (Inr m, d')
                   \<and> P d' \<and> \<not> truthy (dict_get_value m ''speaker_ids''))))"
  shows "\<exists>ds'. P ds'
     \<and> perform svc (ListOfSpeakersDeleteAllSpeakersAction svc DeleteAction validator) pl uid
         internal (Action_init ds arm) =
       (Inr (None, []), (Action_init ds' arm)\<lparr>self_user_id := uid, index := - 1\<rparr>)"
proof -
  let ?cls = "ListOfSpeakersDeleteAllSpeakersAction svc DeleteAction validator"
  let ?s0 = "(Action_init ds arm)\<lparr>self_user_id := uid, index := 0\<rparr>"
  let ?s1 = "(Action_init ds arm)\<lparr>self_user_id := uid, index := - 1\<rparr>"
  have v: "validate_payload ?cls pl ?s0 =
      (Inr (), (Action_init ds arm)\<lparr>self_user_id := uid, index := int (length pl)\<rparr>)"
    using validate_payload_passes[of pl ?cls ?s0] assms(1)
    by (simp add: ListOfSpeakersDeleteAllSpeakersAction_def)
  have c: "check_permissions svc ?cls pl ?s1 = (Inr (), ?s1)" if "\<not> internal"
    using assms(2) that
    by (simp add: check_permissions_def ListOfSpeakersDeleteAllSpeakersAction_def
          Action_init_def)
  have "P (datastore ?s1)" using assms(3) by (simp add: Action_init_def)
  moreover have "\<forall>element\<in>set pl. \<exists>i. map_of element ''id'' = Some (PInt i)
       \<and> (case map_of (additional_relation_models ?s1)
                  (FullQualifiedId ''list_of_speakers'' i) of
           Some m \<Rightarrow> \<not> truthy (dict_get_value m ''speaker_ids'')
         | None \<Rightarrow>
             (\<forall>d. P d \<longrightarrow>
                (\<exists>m d'. datastore_get svc (FullQualifiedId ''list_of_speakers'' i)
                           [''speaker_ids''] True d = (Inr m, d')
                   \<and> P d' \<and> \<not> truthy (dict_get_value m ''speaker_ids''))))"
    using assms(4) by (simp add: Action_init_def)
  ultimately obtain ds' where ds': "P ds'"
    "process_segments svc ?cls (map (delete_all_speakers_segment svc) pl) [] ?s1 =
       (Inr [], ?s1\<lparr>datastore := ds'\<rparr>)"
    using delete_all_speakers_segments_empty[of P ?s1 pl svc ?cls "[]"] by blast
  have g: "get_updated_instances ?cls pl = map (delete_all_speakers_segment svc) pl"
    by (simp add: ListOfSpeakersDeleteAllSpeakersAction_def)
  have pi: "perform_instances svc ?cls pl uid internal (Action_init ds arm) =
      (Inr [], ?s1\<lparr>datastore := ds'\<rparr>)"
    by (cases internal) (simp_all add: perform_instances_def Let_def v c ds'(2) g)
  have pw: "process_write_requests (?s1\<lparr>datastore := ds'\<rparr>) = (Inr None, ?s1\<lparr>datastore := ds'\<rparr>)"
    by (simp add: process_write_requests_def merge_write_requests_def Action_init_def)
  have "perform svc ?cls pl uid internal (Action_init ds arm) =
      (Inr (None, []), ?s1\<lparr>datastore := ds'\<rparr>)"
    by (simp add: perform_def pi pw)
  then show ?thesis using ds'(1) by (intro exI[of _ ds']) (simp add: Action_init_def)
qed

text \<open>
  The theorem for list 23 of \<open>example_datastore\<close>, whose \<^verbatim>\<open>speaker_ids\<close> is the empty
  list; the invariant is that the stored models stay what they are.
\<close>

theorem delete_all_speakers_nothing_to_delete_witness:
  "\<exists>ds'. ds_models ds' = ds_models example_datastore
     \<and> perform example_services ExampleDeleteAllSpeakers
          [[(''id'', PInt 23)]] 7 False (Action_init example_datastore []) =
        (Inr (None, []), (Action_init ds' [])\<lparr>self_user_id := 7, index := - 1\<rparr>)"
  unfolding ExampleDeleteAllSpeakers_def
proof (rule delete_all_speakers_nothing_to_delete
    [where P = "\<lambda>d. ds_models d = ds_models example_datastore"])
  show "\<forall>element\<in>set [[(''id'', PInt 23)]]. accept_all element = None"
    by (simp add: accept_all_def)
  show "False \<or> is_allowed example_services ''list_of_speakers.delete_all_speakers'' 7
          [[(''id'', PInt 23)]]"
    by (simp add: example_services_def)
  show "ds_models example_datastore = ds_models example_datastore" by simp
  show "\<forall>element\<in>set [[(''id'', PInt 23)]].
       \<exists>i. map_of element ''id'' = Some (PInt i)
       \<and> (case map_of [] (FullQualifiedId ''list_of_speakers'' i) of
           Some m \<Rightarrow> \<not> truthy (dict_get_value m ''speaker_ids'')
         | None \<Rightarrow>
             (\<forall>d. ds_models d = ds_models example_datastore \<longrightarrow>
                (\<exists>m d'. datastore_get example_services (FullQualifiedId ''list_of_speakers'' i)
                           [''speaker_ids''] True d = (Inr m, d')
                   \<and> ds_models d' = ds_models example_datastore
                   \<and> \<not> truthy (dict_get_value m ''speaker_ids''))))"
    by (simp add: example_services_def Datastore_get_def example_datastore_def
          dict_get_value_def Let_def)
qed

section \<open>The locked-fields registry\<close>













text \<open>
  The hypothesis of the theorem excludes the nesting that loses locks: the step of
  \<open>ExampleOuter\<close> that executes \<open>ExampleInner\<close> removes the lock that is in the
  registry before it.
\<close>

lemma ExampleOuter_step_removes_lock:
  "\<not> lock_keys (Action_init example_locked_datastore [])
       \<subseteq> lock_keys (snd (create_write_requests ExampleOuter [(''id'', PInt 1)]
                             (Action_init example_locked_datastore [])))"
  unfolding lock_keys_def by code_simp

lemma ExampleOuter_resets_locks: "\<not> no_lock_reset example_services ExampleOuter"
  using ExampleOuter_step_removes_lock
  unfolding no_lock_reset_def keeps_locks_def by blast


section \<open>Required fields\<close>

lemma map_of_fold_event:
  "map_of (fold_event ev fd) k = view_step k ev (map_of fd k)"
  by (auto simp: fold_event_def view_step_def update_conv' split: option.splits)

lemma map_of_fold_fold_event:
  "map_of (fold fold_event evs fd) k = fold (view_step k) evs (map_of fd k)"
  by (induction evs arbitrary: fd) (simp_all add: map_of_fold_event)

lemma fold_view_step_filter:
  "fold (view_step k) evs v = fold (view_step k) (filter (\<lambda>e. fqid e = k) evs) v"
  by (induction evs arbitrary: v) (simp_all add: view_step_def)

lemma fold_view_step_Some:
  "\<forall>e\<in>set later. fqid e = k \<Longrightarrow>
   fold (view_step k) later (Some (t, flds)) =
     Some (if Delete \<in> etype ` set later then Delete else t,
           foldl dict_update flds
             (map event_fields (filter (\<lambda>e. etype e \<noteq> Delete) later)))"
  by (induction later arbitrary: t flds) (auto simp: view_step_def)

lemma fold_events_view:
  assumes "filter (\<lambda>e. fqid e = k) evs = first # later"
  shows "map_of (fold_events evs) k =
     Some (if Delete \<in> etype ` set (first # later) then Delete else etype first,
           foldl dict_update (event_fields first)
             (map event_fields (filter (\<lambda>e. etype e \<noteq> Delete) later)))"
proof -
  have "\<forall>e\<in>set (filter (\<lambda>e. fqid e = k) evs). fqid e = k" by simp
  then have k: "fqid first = k" "\<forall>e\<in>set later. fqid e = k"
    unfolding assms by simp_all
  have "map_of (fold_events evs) k = fold (view_step k) (first # later) None"
    unfolding fold_events_def map_of_fold_fold_event
    using fold_view_step_filter[of k evs None] assms by simp
  also have "\<dots> = fold (view_step k) later (Some (etype first, event_fields first))"
    using k(1) by (simp add: view_step_def)
  also have "\<dots> = Some (if Delete \<in> etype ` set later then Delete else etype first,
           foldl dict_update (event_fields first)
             (map event_fields (filter (\<lambda>e. etype e \<noteq> Delete) later)))"
    by (rule fold_view_step_Some[OF k(2)])
  finally show ?thesis by auto
qed

lemma fold_events_absent:
  "filter (\<lambda>e. fqid e = k) evs = [] \<Longrightarrow> map_of (fold_events evs) k = None"
  unfolding fold_events_def map_of_fold_fold_event
  using fold_view_step_filter[of k evs None] by simp

lemma map_fst_fold_event:
  "map fst (fold_event ev fd) =
     (if fqid ev \<in> set (map fst fd) then map fst fd else map fst fd @ [fqid ev])"
  by (auto simp: fold_event_def update_keys split: option.splits)

lemma keys_fold_events:
  "map fst (fold_events evs) = rev (remdups (rev (map fqid evs)))"
proof (induction evs rule: rev_induct)
  case Nil
  then show ?case by (simp add: fold_events_def)
next
  case (snoc e es)
  have "fold_events (es @ [e]) = fold_event e (fold_events es)"
    by (simp add: fold_events_def)
  then show ?case using snoc by (simp add: map_fst_fold_event)
qed

lemma distinct_fold_events: "distinct (map fst (fold_events evs))"
  by (simp add: keys_fold_events)

lemma map_of_dict_update:
  "map_of (dict_update d other) = map_of d ++ map_of (rev other)"
proof (induction other arbitrary: d)
  case Nil
  then show ?case by (simp add: dict_update_def)
next
  case (Cons kv rest)
  obtain k v where kv: "kv = (k, v)" by (cases kv)
  have "map_of (dict_update d (kv # rest)) = map_of (dict_update (AList.update k v d) rest)"
    by (simp add: dict_update_def kv)
  also have "\<dots> = map_of (AList.update k v d) ++ map_of (rev rest)"
    by (rule Cons.IH)
  also have "\<dots> = map_of d ++ map_of (rev (kv # rest))"
    by (rule ext) (simp add: update_conv' kv map_add_def split: option.splits)
  finally show ?case .
qed

lemma missing_on_create_spec:
  "missing_on_create required inst =
     filter (\<lambda>f. map_of inst f = None \<or> (\<exists>v. map_of inst f = Some v \<and> \<not> truthy v)) required"
  unfolding missing_on_create_def
  by (rule filter_cong) (auto split: option.splits)

lemma missing_on_update_spec:
  "missing_on_update required inst =
     filter (\<lambda>f. \<exists>v. map_of inst f = Some v \<and> \<not> truthy v) required"
  unfolding missing_on_update_def
  by (rule filter_cong) (auto split: option.splits)

lemma missing_on_create_Nil:
  "missing_on_create required inst = [] \<longleftrightarrow>
     (\<forall>f\<in>set required. \<exists>v. map_of inst f = Some v \<and> truthy v)"
  by (auto simp: missing_on_create_def filter_empty_conv split: option.splits)

lemma missing_on_update_Nil:
  "missing_on_update required inst = [] \<longleftrightarrow>
     (\<forall>f\<in>set required. \<forall>v. map_of inst f = Some v \<longrightarrow> truthy v)"
  by (auto simp: missing_on_update_def filter_empty_conv split: option.splits)

lemma check_required_fields_ok_iff:
  "check_required_fields (\<lambda>c. Inr (required c)) fd = Inr () \<longleftrightarrow>
     (\<forall>(fq, ty, inst)\<in>set fd.
        (ty = Create \<longrightarrow> missing_on_create (required (fqid_collection fq)) inst = [])
      \<and> (ty = Update \<longrightarrow> missing_on_update (required (fqid_collection fq)) inst = []))"
proof (induction fd)
  case Nil
  then show ?case by simp
next
  case (Cons entry rest)
  obtain fq ty inst where entry: "entry = (fq, ty, inst)" by (cases entry)
  show ?case using Cons.IH by (cases ty) (auto simp: entry)
qed

lemma check_required_fields_fails:
  assumes "check_required_fields (\<lambda>c. Inr (required c)) fd = Inl e"
  shows "\<exists>before fq ty inst after.
           fd = before @ (fq, ty, inst) # after
         \<and> check_required_fields (\<lambda>c. Inr (required c)) before = Inr ()
         \<and> ((ty = Create
              \<and> missing_on_create (required (fqid_collection fq)) inst \<noteq> []
              \<and> e = RequiredFieldsException (''Creation of '' @ str_fqid fq)
                     (missing_on_create (required (fqid_collection fq)) inst))
            \<or> (ty = Update
              \<and> missing_on_update (required (fqid_collection fq)) inst \<noteq> []
              \<and> e = RequiredFieldsException (''Update of '' @ str_fqid fq)
                     (missing_on_update (required (fqid_collection fq)) inst)))"
  using assms
proof (induction fd)
  case Nil
  then show ?case by simp
next
  case (Cons entry rest)
  obtain fq ty inst where entry: "entry = (fq, ty, inst)" by (cases entry)
  let ?bad = "(ty = Create \<and> missing_on_create (required (fqid_collection fq)) inst \<noteq> [])
            \<or> (ty = Update \<and> missing_on_update (required (fqid_collection fq)) inst \<noteq> [])"
  show ?case
  proof (cases ?bad)
    case True
    with Cons.prems entry have
      "(ty = Create
              \<and> missing_on_create (required (fqid_collection fq)) inst \<noteq> []
              \<and> e = RequiredFieldsException (''Creation of '' @ str_fqid fq)
                     (missing_on_create (required (fqid_collection fq)) inst))
            \<or> (ty = Update
              \<and> missing_on_update (required (fqid_collection fq)) inst \<noteq> []
              \<and> e = RequiredFieldsException (''Update of '' @ str_fqid fq)
                     (missing_on_update (required (fqid_collection fq)) inst))"
      by (cases ty) auto
    then show ?thesis
      unfolding entry
      by (intro exI[of _ "[]"] exI[of _ fq] exI[of _ ty] exI[of _ inst] exI[of _ rest]) simp
  next
    case False
    then have step: "check_required_fields (\<lambda>c. Inr (required c)) (entry # rest) =
        check_required_fields (\<lambda>c. Inr (required c)) rest"
      by (cases ty) (auto simp: entry)
    with Cons.prems have "check_required_fields (\<lambda>c. Inr (required c)) rest = Inl e" by simp
    from Cons.IH[OF this] obtain before fq' ty' inst' after where
      r: "rest = before @ (fq', ty', inst') # after"
         "check_required_fields (\<lambda>c. Inr (required c)) before = Inr ()"
         "(ty' = Create
              \<and> missing_on_create (required (fqid_collection fq')) inst' \<noteq> []
              \<and> e = RequiredFieldsException (''Creation of '' @ str_fqid fq')
                     (missing_on_create (required (fqid_collection fq')) inst'))
            \<or> (ty' = Update
              \<and> missing_on_update (required (fqid_collection fq')) inst' \<noteq> []
              \<and> e = RequiredFieldsException (''Update of '' @ str_fqid fq')
                     (missing_on_update (required (fqid_collection fq')) inst'))"
      by blast
    have "check_required_fields (\<lambda>c. Inr (required c)) (entry # before) = Inr ()"
      using False r(2) by (cases ty) (auto simp: entry)
    with r(1,3) show ?thesis
      by (intro exI[of _ "entry # before"] exI[of _ fq'] exI[of _ ty'] exI[of _ inst']
            exI[of _ after]) simp
  qed
qed

text \<open>
  Claim C5. Let every collection have the required fields \<open>required c\<close>.
  \<^verbatim>\<open>validate_required_fields\<close> returns without an exception exactly when every folded
  Create has each required field with a truthy value and every folded Update has
  no required field with a falsy value; a required field that a folded Update does
  not have is no obstacle. When it raises, it raises for the first folded entity, in
  the order of the first events, that fails this: for a Create
  \<^verbatim>\<open>RequiredFieldsException\<close> with exactly the required fields that are absent or
  falsy, for an Update with exactly those that are present and falsy.
\<close>

theorem validate_required_fields_missing:
  "(validate_required_fields (\<lambda>c. Inr (required c)) wr = Inr () \<longleftrightarrow>
      (\<forall>(fq, ty, inst)\<in>set (fold_events (events wr)).
         (ty = Create \<longrightarrow>
            (\<forall>f\<in>set (required (fqid_collection fq)). \<exists>v. map_of inst f = Some v \<and> truthy v))
       \<and> (ty = Update \<longrightarrow>
            (\<forall>f\<in>set (required (fqid_collection fq)).
               \<forall>v. map_of inst f = Some v \<longrightarrow> truthy v))))
   \<and> (validate_required_fields (\<lambda>c. Inr (required c)) wr = Inl e \<longrightarrow>
        (\<exists>before fq ty inst after.
           fold_events (events wr) = before @ (fq, ty, inst) # after
         \<and> check_required_fields (\<lambda>c. Inr (required c)) before = Inr ()
         \<and> ((ty = Create
              \<and> e = RequiredFieldsException (''Creation of '' @ str_fqid fq)
                     (filter (\<lambda>f. map_of inst f = None
                                \<or> (\<exists>v. map_of inst f = Some v \<and> \<not> truthy v))
                        (required (fqid_collection fq))))
            \<or> (ty = Update
              \<and> e = RequiredFieldsException (''Update of '' @ str_fqid fq)
                     (filter (\<lambda>f. \<exists>v. map_of inst f = Some v \<and> \<not> truthy v)
                        (required (fqid_collection fq)))))))"
proof (intro conjI impI)
  show "validate_required_fields (\<lambda>c. Inr (required c)) wr = Inr () \<longleftrightarrow>
      (\<forall>(fq, ty, inst)\<in>set (fold_events (events wr)).
         (ty = Create \<longrightarrow>
            (\<forall>f\<in>set (required (fqid_collection fq)). \<exists>v. map_of inst f = Some v \<and> truthy v))
       \<and> (ty = Update \<longrightarrow>
            (\<forall>f\<in>set (required (fqid_collection fq)).
               \<forall>v. map_of inst f = Some v \<longrightarrow> truthy v)))"
    unfolding validate_required_fields_def check_required_fields_ok_iff
      missing_on_create_Nil missing_on_update_Nil ..
next
  assume "validate_required_fields (\<lambda>c. Inr (required c)) wr = Inl e"
  then have "check_required_fields (\<lambda>c. Inr (required c)) (fold_events (events wr)) = Inl e"
    by (simp add: validate_required_fields_def)
  from check_required_fields_fails[OF this] obtain before fq ty inst after where
    r: "fold_events (events wr) = before @ (fq, ty, inst) # after"
       "check_required_fields (\<lambda>c. Inr (required c)) before = Inr ()"
       "(ty = Create
              \<and> missing_on_create (required (fqid_collection fq)) inst \<noteq> []
              \<and> e = RequiredFieldsException (''Creation of '' @ str_fqid fq)
                     (missing_on_create (required (fqid_collection fq)) inst))
            \<or> (ty = Update
              \<and> missing_on_update (required (fqid_collection fq)) inst \<noteq> []
              \<and> e = RequiredFieldsException (''Update of '' @ str_fqid fq)
                     (missing_on_update (required (fqid_collection fq)) inst))"
    by blast
  show "\<exists>before fq ty inst after.
           fold_events (events wr) = before @ (fq, ty, inst) # after
         \<and> check_required_fields (\<lambda>c. Inr (required c)) before = Inr ()
         \<and> ((ty = Create
              \<and> e = RequiredFieldsException (''Creation of '' @ str_fqid fq)
                     (filter (\<lambda>f. map_of inst f = None
                                \<or> (\<exists>v. map_of inst f = Some v \<and> \<not> truthy v))
                        (required (fqid_collection fq))))
            \<or> (ty = Update
              \<and> e = RequiredFieldsException (''Update of '' @ str_fqid fq)
                     (filter (\<lambda>f. \<exists>v. map_of inst f = Some v \<and> \<not> truthy v)
                        (required (fqid_collection fq)))))"
    using r unfolding missing_on_create_spec missing_on_update_spec
    by (intro exI[of _ before] exI[of _ fq] exI[of _ ty] exI[of _ inst] exI[of _ after]) auto
qed

text \<open>
  The theorem on three write requests for tag 1, with the required fields \<^verbatim>\<open>name\<close> and
  \<^verbatim>\<open>meeting_id\<close>: a Create with an empty name, an Update with an empty name, and an
  Update with a name and no \<^verbatim>\<open>meeting_id\<close>.
\<close>

theorem validate_required_fields_missing_witness:
  "validate_required_fields (\<lambda>c. Inr (example_required c))
     \<lparr>events = [Event Create (FullQualifiedId ''tag'' 1) (Some [(''name'', PStr [])]) None],
      information = [], user_id = 1, locked_fields = []\<rparr> =
     Inl (RequiredFieldsException ''Creation of tag/1'' [''name'', ''meeting_id''])
   \<and> validate_required_fields (\<lambda>c. Inr (example_required c))
     \<lparr>events = [Event Update (FullQualifiedId ''tag'' 1) (Some [(''name'', PStr [])]) None],
      information = [], user_id = 1, locked_fields = []\<rparr> =
     Inl (RequiredFieldsException ''Update of tag/1'' [''name''])
   \<and> validate_required_fields (\<lambda>c. Inr (example_required c))
     \<lparr>events = [Event Update (FullQualifiedId ''tag'' 1) (Some [(''name'', PStr ''x'')]) None],
      information = [], user_id = 1, locked_fields = []\<rparr> = Inr ()"
proof -
  have a: "validate_required_fields (\<lambda>c. Inr (example_required c))
     \<lparr>events = [Event Create (FullQualifiedId ''tag'' 1) (Some [(''name'', PStr [])]) None],
      information = [], user_id = 1, locked_fields = []\<rparr> =
     Inl (RequiredFieldsException ''Creation of tag/1'' [''name'', ''meeting_id''])"
    by code_simp
  have b: "validate_required_fields (\<lambda>c. Inr (example_required c))
     \<lparr>events = [Event Update (FullQualifiedId ''tag'' 1) (Some [(''name'', PStr [])]) None],
      information = [], user_id = 1, locked_fields = []\<rparr> =
     Inl (RequiredFieldsException ''Update of tag/1'' [''name''])"
    by code_simp
  have c: "\<forall>(fq, ty, inst)\<in>set (fold_events
        [Event Update (FullQualifiedId ''tag'' 1) (Some [(''name'', PStr ''x'')]) None]).
         (ty = Create \<longrightarrow>
            (\<forall>f\<in>set (example_required (fqid_collection fq)).
               \<exists>v. map_of inst f = Some v \<and> truthy v))
       \<and> (ty = Update \<longrightarrow>
            (\<forall>f\<in>set (example_required (fqid_collection fq)).
               \<forall>v. map_of inst f = Some v \<longrightarrow> truthy v))"
    by (simp add: fold_events_def fold_event_def event_fields_def example_required_def)
  from validate_required_fields_missing
    [of example_required
        "\<lparr>events = [Event Update (FullQualifiedId ''tag'' 1) (Some [(''name'', PStr ''x'')]) None],
          information = [], user_id = 1, locked_fields = []\<rparr>"]
  have "validate_required_fields (\<lambda>c. Inr (example_required c))
     \<lparr>events = [Event Update (FullQualifiedId ''tag'' 1) (Some [(''name'', PStr ''x'')]) None],
      information = [], user_id = 1, locked_fields = []\<rparr> = Inr ()"
    using c by simp
  with a b show ?thesis by simp
qed

lemma check_required_fields_skips_deleted:
  "check_required_fields registry fd =
   check_required_fields registry (filter (\<lambda>entry. fst (snd entry) \<noteq> Delete) fd)"
proof (induction fd)
  case Nil
  then show ?case by simp
next
  case (Cons entry rest)
  obtain fq ty inst where entry: "entry = (fq, ty, inst)" by (cases entry)
  show ?case using Cons.IH by (cases ty) (simp_all add: entry split: sum.splits)
qed

lemma first_occurrences_filter:
  "filter P (rev (remdups (rev (map f xs)))) =
   rev (remdups (rev (map f (filter (\<lambda>x. P (f x)) xs))))"
proof -
  have "rev (remdups (rev (map f (filter (\<lambda>x. P (f x)) xs)))) =
        rev (remdups (rev (filter P (map f xs))))"
    by (simp add: filter_map o_def)
  also have "\<dots> = rev (remdups (filter P (rev (map f xs))))"
    by (simp only: rev_filter)
  also have "\<dots> = rev (filter P (remdups (rev (map f xs))))"
    by (simp only: remdups_filter)
  also have "\<dots> = filter P (rev (remdups (rev (map f xs))))"
    by (simp only: rev_filter)
  finally show ?thesis by simp
qed

lemma alist_rebuild:
  "distinct (map fst xs) \<Longrightarrow> map (\<lambda>k. (k, the (map_of xs k))) (map fst xs) = xs"
proof (induction xs)
  case Nil
  then show ?case by simp
next
  case (Cons x xs)
  obtain k v where x: "x = (k, v)" by (cases x)
  from Cons.prems have nk: "k \<notin> fst ` set xs" and d: "distinct (map fst xs)"
    by (auto simp: x)
  have "map (\<lambda>k'. (k', the (map_of (x # xs) k'))) (map fst xs) =
        map (\<lambda>k'. (k', the (map_of xs k'))) (map fst xs)"
    using nk by (auto simp: x)
  with Cons.IH[OF d] show ?case by (simp add: x)
qed

lemma alist_eqI:
  assumes "distinct (map fst xs)" "distinct (map fst ys)" "map fst xs = map fst ys"
    "\<And>k. map_of xs k = map_of ys k"
  shows "xs = ys"
proof -
  have "xs = map (\<lambda>k. (k, the (map_of xs k))) (map fst xs)"
    using alist_rebuild[OF assms(1)] by simp
  also have "\<dots> = map (\<lambda>k. (k, the (map_of ys k))) (map fst ys)"
    using assms(3,4) by simp
  also have "\<dots> = ys" using alist_rebuild[OF assms(2)] .
  finally show ?thesis .
qed

lemma map_of_filter_distinct:
  assumes "distinct (map fst al)"
  shows "map_of (filter keep al) key =
     (if \<exists>entry. map_of al key = Some entry \<and> keep (key, entry) then map_of al key
      else None)"
  using assms
proof (induction al)
  case Nil
  then show ?case by simp
next
  case (Cons x al)
  obtain k' v' where x: "x = (k', v')" by (cases x)
  from Cons.prems have nk: "k' \<notin> fst ` set al" and d: "distinct (map fst al)"
    by (auto simp: x)
  have none: "map_of al k' = None" using nk by (simp add: map_of_eq_None_iff)
  show ?case using Cons.IH[OF d] none by (auto simp: x)
qed

lemma map_fst_filter_keys:
  "(\<And>k v. (k, v) \<in> set xs \<Longrightarrow> P (k, v) = Q k) \<Longrightarrow>
   map fst (filter P xs) = filter Q (map fst xs)"
  by (induction xs) auto

lemma folded_type_Delete_iff:
  assumes "(k, ty, inst) \<in> set (fold_events evs)"
  shows "ty = Delete \<longleftrightarrow> (\<exists>e\<in>set evs. fqid e = k \<and> etype e = Delete)"
proof -
  have m: "map_of (fold_events evs) k = Some (ty, inst)"
    using assms distinct_fold_events by simp
  show ?thesis
  proof (cases "filter (\<lambda>e. fqid e = k) evs")
    case Nil
    from fold_events_absent[OF this] m show ?thesis by simp
  next
    case (Cons first later)
    have S: "set (first # later) = {e \<in> set evs. fqid e = k}"
      using Cons by (metis set_filter)
    from fold_events_view[OF Cons] m
    have ty: "ty = (if Delete \<in> etype ` set (first # later) then Delete else etype first)"
      by simp
    show ?thesis
    proof (cases "Delete \<in> etype ` set (first # later)")
      case True
      then have "\<exists>e\<in>set evs. fqid e = k \<and> etype e = Delete"
        unfolding S by force
      with ty True show ?thesis by simp
    next
      case False
      then have "\<not> (\<exists>e\<in>set evs. fqid e = k \<and> etype e = Delete)"
        unfolding S by force
      moreover have "etype first \<noteq> Delete" using False by force
      ultimately show ?thesis using ty False by simp
    qed
  qed
qed

lemma fold_events_without_deleted:
  "filter (\<lambda>entry. fst (snd entry) \<noteq> Delete) (fold_events evs) =
   fold_events (filter (\<lambda>e. fqid e \<notin> fqid ` {d \<in> set evs. etype d = Delete}) evs)"
proof (rule alist_eqI)
  let ?D = "fqid ` {d \<in> set evs. etype d = Delete}"
  let ?evs' = "filter (\<lambda>e. fqid e \<notin> ?D) evs"
  show "distinct (map fst (filter (\<lambda>entry. fst (snd entry) \<noteq> Delete) (fold_events evs)))"
    using distinct_fold_events[of evs] by (simp add: distinct_map_filter)
  show "distinct (map fst (fold_events ?evs'))" by (rule distinct_fold_events)
  have keep: "(fst (snd (k, v)) \<noteq> Delete) = (k \<notin> ?D)" if "(k, v) \<in> set (fold_events evs)" for k v
  proof -
    obtain ty inst where v: "v = (ty, inst)" by (cases v)
    from folded_type_Delete_iff[of k ty inst evs] that v show ?thesis by auto
  qed
  show "map fst (filter (\<lambda>entry. fst (snd entry) \<noteq> Delete) (fold_events evs)) =
        map fst (fold_events ?evs')"
  proof -
    have "map fst (filter (\<lambda>entry. fst (snd entry) \<noteq> Delete) (fold_events evs)) =
          filter (\<lambda>k. k \<notin> ?D) (map fst (fold_events evs))"
      by (rule map_fst_filter_keys) (rule keep)
    also have "\<dots> = rev (remdups (rev (map fqid ?evs')))"
      by (simp only: keys_fold_events first_occurrences_filter)
    finally show ?thesis by (simp add: keys_fold_events)
  qed
  fix k
  show "map_of (filter (\<lambda>entry. fst (snd entry) \<noteq> Delete) (fold_events evs)) k =
        map_of (fold_events ?evs') k"
  proof (cases "k \<in> ?D")
    case True
    then have "filter (\<lambda>e. fqid e = k) ?evs' = []"
      by (auto simp: filter_empty_conv)
    from fold_events_absent[OF this] have r: "map_of (fold_events ?evs') k = None" .
    have "map_of (filter (\<lambda>entry. fst (snd entry) \<noteq> Delete) (fold_events evs)) k = None"
    proof (cases "map_of (fold_events evs) k")
      case None
      then show ?thesis by (simp add: map_of_filter_distinct[OF distinct_fold_events])
    next
      case (Some v)
      then have "(k, v) \<in> set (fold_events evs)" by (rule map_of_SomeD)
      from keep[OF this] True have "fst (snd (k, v)) = Delete" by simp
      with Some show ?thesis by (simp add: map_of_filter_distinct[OF distinct_fold_events])
    qed
    with r show ?thesis by simp
  next
    case False
    have same: "filter (\<lambda>e. fqid e = k) ?evs' = filter (\<lambda>e. fqid e = k) evs"
      using False by (auto intro: filter_cong)
    have r: "map_of (fold_events ?evs') k = map_of (fold_events evs) k"
      unfolding fold_events_def map_of_fold_fold_event
      using fold_view_step_filter[of k ?evs' None] fold_view_step_filter[of k evs None] same
      by simp
    have "map_of (filter (\<lambda>entry. fst (snd entry) \<noteq> Delete) (fold_events evs)) k =
          map_of (fold_events evs) k"
    proof (cases "map_of (fold_events evs) k")
      case None
      then show ?thesis by (simp add: map_of_filter_distinct[OF distinct_fold_events])
    next
      case (Some v)
      then have "(k, v) \<in> set (fold_events evs)" by (rule map_of_SomeD)
      from keep[OF this] False have "fst (snd (k, v)) \<noteq> Delete" by simp
      with Some show ?thesis by (simp add: map_of_filter_distinct[OF distinct_fold_events])
    qed
    with r show ?thesis by simp
  qed
qed

text \<open>
  Claim C6. The fold keeps one entry for each entity. For an entity with the events
  \<open>first # later\<close>, in their order, the folded kind is Delete as soon as one of them
  is a Delete, and the kind of the first event otherwise; the folded fields are
  those of the first event, updated in turn with the fields of every later event
  that is no Delete, where an update stores the later value for a field that is
  already there. And the validation of a write request is the validation of the
  write request without the events of every entity that has a Delete event: such
  an entity contributes no required field, whatever was created or updated on it.
\<close>

theorem fold_events_delete_supersedes:
  "distinct (map fst (fold_events evs))
   \<and> (filter (\<lambda>e. fqid e = k) evs = first # later \<longrightarrow>
        map_of (fold_events evs) k =
          Some (if Delete \<in> etype ` set (first # later) then Delete else etype first,
                foldl dict_update (event_fields first)
                  (map event_fields (filter (\<lambda>e. etype e \<noteq> Delete) later))))
   \<and> map_of (dict_update flds other) f =
        (case map_of (rev other) f of None \<Rightarrow> map_of flds f | Some v \<Rightarrow> Some v)
   \<and> validate_required_fields registry wr =
        validate_required_fields registry
          (wr\<lparr>events :=
                filter (\<lambda>e. fqid e \<notin> fqid ` {del \<in> set (events wr). etype del = Delete})
                  (events wr)\<rparr>)"
proof (intro conjI impI)
  show "distinct (map fst (fold_events evs))" by (rule distinct_fold_events)
next
  assume "filter (\<lambda>e. fqid e = k) evs = first # later"
  then show "map_of (fold_events evs) k =
          Some (if Delete \<in> etype ` set (first # later) then Delete else etype first,
                foldl dict_update (event_fields first)
                  (map event_fields (filter (\<lambda>e. etype e \<noteq> Delete) later)))"
    by (rule fold_events_view)
next
  show "map_of (dict_update flds other) f =
        (case map_of (rev other) f of None \<Rightarrow> map_of flds f | Some v \<Rightarrow> Some v)"
    by (simp add: map_of_dict_update map_add_def)
next
  have "check_required_fields registry (fold_events (events wr)) =
        check_required_fields registry
          (filter (\<lambda>entry. fst (snd entry) \<noteq> Delete) (fold_events (events wr)))"
    by (rule check_required_fields_skips_deleted)
  also have "\<dots> = check_required_fields registry
      (fold_events
         (filter (\<lambda>e. fqid e \<notin> fqid ` {del \<in> set (events wr). etype del = Delete})
            (events wr)))"
    by (simp only: fold_events_without_deleted)
  finally show "validate_required_fields registry wr =
        validate_required_fields registry
          (wr\<lparr>events :=
                filter (\<lambda>e. fqid e \<notin> fqid ` {del \<in> set (events wr). etype del = Delete})
                  (events wr)\<rparr>)"
    by (simp add: validate_required_fields_def)
qed

text \<open>
  The theorem on \<open>example_tag_events\<close>: tag 1 is created without a name and without
  \<^verbatim>\<open>meeting_id\<close>, renamed and deleted; its folded kind is Delete and the validation
  passes.
\<close>

theorem fold_events_delete_supersedes_witness:
  "filter (\<lambda>e. fqid e = FullQualifiedId ''tag'' 1) example_tag_events =
     Event Create (FullQualifiedId ''tag'' 1) (Some [(''name'', PStr [])]) None
     # [Event Update (FullQualifiedId ''tag'' 1) (Some [(''name'', PStr ''x'')]) None,
        Event Delete (FullQualifiedId ''tag'' 1) None None]
   \<and> map_of (fold_events example_tag_events) (FullQualifiedId ''tag'' 1) =
       Some (Delete, [(''name'', PStr ''x'')])
   \<and> validate_required_fields (\<lambda>c. Inr (example_required c))
        \<lparr>events = example_tag_events, information = [], user_id = 1, locked_fields = []\<rparr> =
       Inr ()"
proof -
  have a: "filter (\<lambda>e. fqid e = FullQualifiedId ''tag'' 1) example_tag_events =
     Event Create (FullQualifiedId ''tag'' 1) (Some [(''name'', PStr [])]) None
     # [Event Update (FullQualifiedId ''tag'' 1) (Some [(''name'', PStr ''x'')]) None,
        Event Delete (FullQualifiedId ''tag'' 1) None None]"
    by (simp add: example_tag_events_def)
  have b: "validate_required_fields (\<lambda>c. Inr (example_required c))
        \<lparr>events = example_tag_events, information = [], user_id = 1, locked_fields = []\<rparr> =
       Inr ()"
    by code_simp
  from fold_events_delete_supersedes
    [where evs = example_tag_events and k = "FullQualifiedId ''tag'' 1"
       and first = "Event Create (FullQualifiedId ''tag'' 1) (Some [(''name'', PStr [])]) None"
       and later = "[Event Update (FullQualifiedId ''tag'' 1) (Some [(''name'', PStr ''x'')]) None,
          Event Delete (FullQualifiedId ''tag'' 1) None None]"
       and flds = "[]" and other = "[]" and f = "''name''"
       and registry = "\<lambda>c. Inr (example_required c)"
       and wr = "\<lparr>events = example_tag_events, information = [], user_id = 1,
                  locked_fields = []\<rparr>"]
  show ?thesis using a b
    by (simp add: event_fields_def dict_update_def)
qed

end
